theory Spec2Isabelle
  imports Complex_Main "HOL-Library.Sublist"
begin

section \<open>Python values shared by both modules\<close>

text \<open>
  Exceptions of the two modules (\<open>api.py\<close>, \<open>scraper.py\<close>) are values. Every
  class below is a subclass of Python's \<open>Exception\<close>, so a handler
  \<open>except Exception\<close> catches all of them and \<open>except TimeoutException\<close> only the first.
\<close>

datatype exn =
    TimeoutException
  | WebDriverException string
  | AttributeError string
  | UnboundLocalError string
  | ValueError string
  | TypeError string
  | OSError string

text \<open>\<open>str(e)\<close>, as the handlers of \<open>search\<close> and \<open>main\<close> use it.\<close>

fun str_exn :: "exn \<Rightarrow> string" where
  "str_exn TimeoutException = ''Message: ''"
| "str_exn (WebDriverException m) = m"
| "str_exn (AttributeError m) = m"
| "str_exn (UnboundLocalError m) = m"
| "str_exn (ValueError m) = m"
| "str_exn (TypeError m) = m"
| "str_exn (OSError m) = m"

subsection \<open>Strings\<close>

text \<open>\<open>sub in s\<close> on Python strings: \<open>sub\<close> occurs as a contiguous substring.\<close>

fun str_in :: "string \<Rightarrow> string \<Rightarrow> bool" where
  "str_in sub [] = (sub = [])"
| "str_in sub (c # cs) = (prefix sub (c # cs) \<or> str_in sub cs)"

text \<open>The characters \<open>str.isspace\<close> accepts among the first 256 code points.\<close>

definition is_space :: "char \<Rightarrow> bool" where
  "is_space c \<longleftrightarrow> c \<in> set [CHR 0x09, CHR 0x0A, CHR 0x0B, CHR 0x0C, CHR 0x0D,
     CHR 0x1C, CHR 0x1D, CHR 0x1E, CHR 0x1F, CHR 0x20, CHR 0x85, CHR 0xA0]"

text \<open>\<open>s.strip()\<close>: leading and trailing whitespace removed.\<close>

definition strip :: "string \<Rightarrow> string" where
  "strip s = rev (dropWhile is_space (rev (dropWhile is_space s)))"

text \<open>
  \<open>s.split(sep, 1)\<close> for a one-character separator: at most one split, at the first
  occurrence; a string without the separator is returned whole.
\<close>

definition split1 :: "char \<Rightarrow> string \<Rightarrow> string list" where
  "split1 sep s =
     (if sep \<in> set s
      then [takeWhile (\<lambda>c. c \<noteq> sep) s, drop 1 (dropWhile (\<lambda>c. c \<noteq> sep) s)]
      else [s])"

text \<open>Truthiness of an \<open>Optional[str]\<close>: \<open>None\<close> and the empty string are falsy.\<close>

fun truthy :: "string option \<Rightarrow> bool" where
  "truthy None = False"
| "truthy (Some s) = (s \<noteq> [])"


text \<open>
  \<open>s.split(sep)\<close> for a one-character separator (every occurrence splits; the empty
  string gives one empty piece) and \<open>s.split()\<close> (runs of whitespace separate, no
  empty piece). Both are the same scan with a different test.
\<close>

fun split_when :: "(char \<Rightarrow> bool) \<Rightarrow> string \<Rightarrow> string list" where
  "split_when P [] = [[]]"
| "split_when P (c # cs) =
     (if P c then [] # split_when P cs
      else (case split_when P cs of
              [] \<Rightarrow> [[c]]
            | piece # pieces \<Rightarrow> (c # piece) # pieces))"

definition split_all :: "char \<Rightarrow> string \<Rightarrow> string list" where
  "split_all sep s = split_when (\<lambda>c. c = sep) s"

definition py_words :: "string \<Rightarrow> string list" where
  "py_words s = filter (\<lambda>p. p \<noteq> []) (split_when is_space s)"

text \<open>
  Text is modelled as 8-bit characters, read as the code points 0 to 255. On these,
  \<open>is_upper\<close> is the set of characters \<open>str.lower\<close> changes (each to the code point 32
  above), \<open>is_alpha\<close> the class \<open>[a-zA-Z]\<close>, \<open>is_digit\<close> the class \<open>\d\<close> and
  \<open>is_word\<close> the class \<open>\w\<close> of a \<open>str\<close> pattern: the letters and digits of
  \<open>str.isalnum\<close> and the underscore.
\<close>

definition is_upper :: "char \<Rightarrow> bool" where
  "is_upper c \<longleftrightarrow> (let n = (of_char c :: nat)
                  in (65 \<le> n \<and> n \<le> 90) \<or> (192 \<le> n \<and> n \<le> 214) \<or> (216 \<le> n \<and> n \<le> 222))"

definition is_alpha :: "char \<Rightarrow> bool" where
  "is_alpha c \<longleftrightarrow> (let n = (of_char c :: nat) in (65 \<le> n \<and> n \<le> 90) \<or> (97 \<le> n \<and> n \<le> 122))"

definition is_digit :: "char \<Rightarrow> bool" where
  "is_digit c \<longleftrightarrow> (let n = (of_char c :: nat) in 48 \<le> n \<and> n \<le> 57)"

definition is_word :: "char \<Rightarrow> bool" where
  "is_word c \<longleftrightarrow> is_alpha c \<or> is_digit c \<or> c = CHR ''_''
     \<or> (let n = (of_char c :: nat)
         in n = 170 \<or> n = 178 \<or> n = 179 \<or> n = 181 \<or> n = 185 \<or> n = 186
            \<or> (188 \<le> n \<and> n \<le> 190) \<or> (192 \<le> n \<and> n \<le> 214)
            \<or> (216 \<le> n \<and> n \<le> 246) \<or> 248 \<le> n)"

definition py_lower :: "string \<Rightarrow> string" where
  "py_lower s = map (\<lambda>c. if is_upper c then char_of ((of_char c :: nat) + 32) else c) s"

text \<open>\<open>'; '.join(xs)\<close>.\<close>

fun join :: "string \<Rightarrow> string list \<Rightarrow> string" where
  "join sep [] = []"
| "join sep [x] = x"
| "join sep (x # y # ys) = x @ sep @ join sep (y # ys)"

text \<open>\<open>xs[:n]\<close> for a Python integer \<open>n\<close>: a negative \<open>n\<close> counts from the end.\<close>

definition slice_to :: "int \<Rightarrow> 'a list \<Rightarrow> 'a list" where
  "slice_to n xs = (if 0 \<le> n then take (nat n) xs else take (length xs - nat (- n)) xs)"

subsection \<open>The regular expressions of the source\<close>

text \<open>
  The patterns the two modules pass to \<open>re\<close> are sequences of character classes, each
  with a greedy repetition \<open>{lo,hi}\<close> (\<open>hi\<close> absent for \<open>+\<close> and \<open>{2,}\<close>; a literal
  character is a one-character class taken once). \<open>rx_match\<close> is the backtracking
  matcher of \<open>re\<close> on that fragment: at a position it takes the longest run the class
  allows and gives characters back one at a time until the rest of the pattern matches;
  the result is the length of the match. \<open>rx_search\<close> is \<open>re.search(p, s).group()\<close>
  (the leftmost match) and \<open>rx_findall\<close> is \<open>re.findall(p, s)\<close> (the leftmost matches,
  without overlap) for patterns that cannot match the empty string.
\<close>

type_synonym rx_item = "(char \<Rightarrow> bool) \<times> nat \<times> nat option"

fun try_counts :: "(nat \<Rightarrow> nat option) \<Rightarrow> nat \<Rightarrow> nat \<Rightarrow> nat option" where
  "try_counts f lo 0 = (if lo = 0 then f 0 else None)"
| "try_counts f lo (Suc k) =
     (if Suc k < lo then None
      else (case f (Suc k) of Some r \<Rightarrow> Some r | None \<Rightarrow> try_counts f lo k))"

fun rx_match :: "rx_item list \<Rightarrow> string \<Rightarrow> nat option" where
  "rx_match [] s = Some 0"
| "rx_match ((cls, lo, hi) # its) s =
     (let n = length (takeWhile cls s);
          m = (case hi of None \<Rightarrow> n | Some h \<Rightarrow> min h n)
      in try_counts (\<lambda>k. map_option (\<lambda>r. k + r) (rx_match its (drop k s))) lo m)"

fun rx_search :: "rx_item list \<Rightarrow> string \<Rightarrow> string option" where
  "rx_search p [] = (case rx_match p [] of None \<Rightarrow> None | Some n \<Rightarrow> Some [])"
| "rx_search p (c # cs) =
     (case rx_match p (c # cs) of
        None \<Rightarrow> rx_search p cs
      | Some n \<Rightarrow> Some (take n (c # cs)))"

fun rx_findall :: "rx_item list \<Rightarrow> string \<Rightarrow> string list" where
  "rx_findall p [] = []"
| "rx_findall p (c # cs) =
     (case rx_match p (c # cs) of
        None \<Rightarrow> rx_findall p cs
      | Some n \<Rightarrow> take n (c # cs) # rx_findall p (drop (n - 1) cs))"

definition lit :: "char \<Rightarrow> rx_item" where
  "lit c = ((\<lambda>x. x = c), 1, Some 1)"

definition lits :: "string \<Rightarrow> rx_item list" where
  "lits s = map lit s"

text \<open>\<^verbatim>\<open>[\w\.-]+@[\w\.-]+\.[a-zA-Z]{2,}\<close> (api.py, line 451).\<close>

definition email_char :: "char \<Rightarrow> bool" where
  "email_char c \<longleftrightarrow> is_word c \<or> c = CHR ''.'' \<or> c = CHR ''-''"

definition EMAIL_RE :: "rx_item list" where
  "EMAIL_RE = [(email_char, 1, None), lit CHR ''@'', (email_char, 1, None),
               lit CHR ''.'', (is_alpha, 2, None)]"

text \<open>\<^verbatim>\<open>\d+\<close> (line 374), \<^verbatim>\<open>([A-Za-z\s]+County)\<close> (line 403) and
  \<^verbatim>\<open>Last reported ([A-Za-z]+ \d{4})\<close> (line 434).\<close>

definition DIGITS_RE :: "rx_item list" where
  "DIGITS_RE = [(is_digit, 1, None)]"

definition COUNTY_RE :: "rx_item list" where
  "COUNTY_RE = ((\<lambda>c. is_alpha c \<or> is_space c), 1, None) # lits ''County''"

definition LAST_REPORTED_RE :: "rx_item list" where
  "LAST_REPORTED_RE = lits ''Last reported '' @ [(is_alpha, 1, None), lit CHR '' '', (is_digit, 4, Some 4)]"

section \<open>Data model\<close>

text \<open>\<open>Owner\<close> and \<open>ScrapingResult\<close> of \<open>scraper.py\<close>.\<close>

record owner =
  first_name :: string
  last_name :: string
  property_address :: "string option"
  property_city :: "string option"
  property_state :: "string option"
  property_zip :: "string option"
  mailing_address :: "string option"
  mailing_city :: "string option"
  mailing_state :: "string option"
  mailing_zip :: "string option"
  row_index :: int

definition full_name :: "owner \<Rightarrow> string" where
  "full_name ow = first_name ow @ '' '' @ last_name ow"

record scraping_result =
  owner_of :: owner
  current_address :: "string option"
  phone_numbers :: "string list"
  emails :: "string list"
  error :: "string option"

text \<open>\<open>ScrapingResult(owner=owner)\<close>: the defaults, after \<open>__post_init__\<close>.\<close>

definition ScrapingResult :: "owner \<Rightarrow> scraping_result" where
  "ScrapingResult ow =
     \<lparr>owner_of = ow, current_address = None, phone_numbers = [], emails = [], error = None\<rparr>"

text \<open>\<open>SearchResult\<close> of \<open>api.py\<close>, with the phone dictionaries as records.\<close>

record phone_data =
  number :: string
  phone_type :: string
  last_reported :: string
  provider :: string

record search_result =
  search_option :: string
  input_given :: string
  sr_first_name :: "string option"
  sr_last_name :: "string option"
  sr_age :: "string option"
  sr_lives_in :: "string option"
  sr_street_address :: "string option"
  sr_address_locality :: "string option"
  sr_address_region :: "string option"
  sr_postal_code :: "string option"
  sr_country_name :: "string option"
  sr_emails :: "string list"
  sr_phones :: "phone_data list"
  sr_person_link :: "string option"
  sr_error :: "string option"

text \<open>\<open>SearchResult(search_option=.., input_given=.., error=..)\<close>: every other field
  at its default.\<close>

definition error_result :: "string \<Rightarrow> string \<Rightarrow> string \<Rightarrow> search_result" where
  "error_result opt given msg =
     \<lparr>search_option = opt, input_given = given, sr_first_name = None, sr_last_name = None,
      sr_age = None, sr_lives_in = None, sr_street_address = None, sr_address_locality = None,
      sr_address_region = None, sr_postal_code = None, sr_country_name = None, sr_emails = [],
      sr_phones = [], sr_person_link = None, sr_error = Some msg\<rparr>"

subsection \<open>Markup as the code reads it\<close>

text \<open>
  \<open>BeautifulSoup\<close> is a library. A page is modelled by what the code's \<open>find\<close> and
  \<open>find_all\<close> calls return on it, with \<open>get_text(strip=True)\<close> already applied:
  a result card has the text of its \<open>div.h4\<close> (if any) and its \<open>detail-link\<close> anchor
  (absent, present without \<open>href\<close>, or present with it); a phone section
  (\<open>div.col\<close> with \<open>bis_skin_checked="1"\<close>) has its phone anchor (absent, present
  without a \<open>telephone\<close> span, or present with the span's text) and the text of its
  \<open>div.mt-1.dt-ln\<close> (if any).
\<close>

record card =
  name_div :: "string option"
  detail_link :: "string option option"

record phone_section =
  phone_link :: "string option option"
  phone_info :: "string option"

record address_section =
  streetAddress :: "string option"
  addressLocality :: "string option"
  addressRegion :: "string option"
  postalCode :: "string option"
  address_text :: string

record profile_page =
  name_header :: "string option"
  postal_address :: "address_section option"
  phone_sections :: "phone_section list"
  email_divs :: "string list"

section \<open>Extraction Engine\<close>

subsection \<open>Batch path: \<open>TruePeopleSearchScraper.extract_profile_info\<close>, lines 393 to 420\<close>

text \<open>
  The phone loop. The local variable \<open>phone\<close> is bound only once a \<open>telephone\<close> span
  has been seen, and it keeps its value across iterations; reading it unbound raises
  \<open>UnboundLocalError\<close>. \<open>list.remove\<close> removes the first occurrence and raises
  \<open>ValueError\<close> when there is none.
\<close>

fun scan_phones :: "phone_section list \<Rightarrow> string option \<Rightarrow> string list \<Rightarrow> exn + string list" where
  "scan_phones [] phone nums = Inr nums"
| "scan_phones (s # rest) phone nums =
     (case phone_link s of
        None \<Rightarrow> scan_phones rest phone nums
      | Some phone_span \<Rightarrow>
          (let (phone', nums') =
                 (case phone_span of
                    None \<Rightarrow> (phone, nums)
                  | Some txt \<Rightarrow> (Some txt, if txt \<in> set nums then nums else nums @ [txt]))
           in case phone_info s of
                None \<Rightarrow> scan_phones rest phone' nums'
              | Some info_text \<Rightarrow>
                  if str_in ''Possible Primary Phone'' info_text
                  then (case phone' of
                          None \<Rightarrow> Inl (UnboundLocalError ''phone'')
                        | Some p \<Rightarrow>
                            if p \<in> set nums'
                            then scan_phones rest phone' (p # remove1 p nums')
                            else Inl (ValueError ''list.remove(x): x not in list''))
                  else scan_phones rest phone' nums'))"

text \<open>The email loop: the whole stripped text of a block is taken as the address.\<close>

fun scan_emails :: "string list \<Rightarrow> string list \<Rightarrow> string list" where
  "scan_emails [] acc = acc"
| "scan_emails (email_text # rest) acc =
     (if str_in ''@'' email_text \<and> str_in ''.'' email_text
      then (let email = strip email_text
            in scan_emails rest (if email \<in> set acc then acc else acc @ [email]))
      else scan_emails rest acc)"

text \<open>
  The returned dictionary: \<open>{}\<close> when the fetch gave nothing, else the three keys.
  \<open>current_address\<close> is written once, at the initialisation of \<open>result\<close>.
\<close>

datatype batch_info = EmptyDict | Info "string option" "string list" "string list"

fun get_current_address :: "batch_info \<Rightarrow> string option" where
  "get_current_address EmptyDict = None"
| "get_current_address (Info a ps es) = a"

fun get_phone_numbers :: "batch_info \<Rightarrow> string list" where
  "get_phone_numbers EmptyDict = []"
| "get_phone_numbers (Info a ps es) = ps"

fun get_emails :: "batch_info \<Rightarrow> string list" where
  "get_emails EmptyDict = []"
| "get_emails (Info a ps es) = es"

definition extract_profile_fields :: "profile_page \<Rightarrow> exn + batch_info" where
  "extract_profile_fields page =
     (case scan_phones (phone_sections page) None [] of
        Inl e \<Rightarrow> Inl e
      | Inr nums \<Rightarrow> Inr (Info None nums (scan_emails (email_divs page) [])))"

subsection \<open>Request-response path: \<open>TruePeopleSearchAPI._extract_profile_info\<close>, lines 358 to 456\<close>

record profile_fields =
  pf_first_name :: "string option"
  pf_last_name :: "string option"
  pf_age :: "string option"
  pf_lives_in :: "string option"
  pf_street_address :: "string option"
  pf_address_locality :: "string option"
  pf_address_region :: "string option"
  pf_postal_code :: "string option"
  pf_country_name :: "string option"
  pf_emails :: "string list"
  pf_phones :: "phone_data list"

definition empty_fields :: profile_fields where
  "empty_fields =
     \<lparr>pf_first_name = None, pf_last_name = None, pf_age = None, pf_lives_in = None,
      pf_street_address = None, pf_address_locality = None, pf_address_region = None,
      pf_postal_code = None, pf_country_name = None, pf_emails = [], pf_phones = []\<rparr>"

definition extract_name_age :: "string option \<Rightarrow> profile_fields \<Rightarrow> profile_fields" where
  "extract_name_age header r =
     (case header of
        None \<Rightarrow> r
      | Some name_text \<Rightarrow>
          (let name_parts = split1 CHR '','' name_text;
               name_split = split1 CHR '' '' (strip (name_parts ! 0));
               r1 = r\<lparr>pf_first_name := Some (name_split ! 0)\<rparr>;
               r2 = (if length name_split > 1 then r1\<lparr>pf_last_name := Some (name_split ! 1)\<rparr> else r1)
           in if length name_parts > 1
              then (case rx_search DIGITS_RE (strip (name_parts ! 1)) of
                      None \<Rightarrow> r2
                    | Some age \<Rightarrow> r2\<lparr>pf_age := Some age\<rparr>)
              else r2))"

definition extract_address :: "address_section option \<Rightarrow> profile_fields \<Rightarrow> profile_fields" where
  "extract_address sect r =
     (case sect of
        None \<Rightarrow> r
      | Some a \<Rightarrow>
          (let r1 = (case streetAddress a of None \<Rightarrow> r | Some v \<Rightarrow> r\<lparr>pf_street_address := Some v\<rparr>);
               r2 = (case addressLocality a of None \<Rightarrow> r1 | Some v \<Rightarrow> r1\<lparr>pf_address_locality := Some v\<rparr>);
               r3 = (case addressRegion a of None \<Rightarrow> r2 | Some v \<Rightarrow> r2\<lparr>pf_address_region := Some v\<rparr>);
               r4 = (case postalCode a of None \<Rightarrow> r3 | Some v \<Rightarrow> r3\<lparr>pf_postal_code := Some v\<rparr>);
               r5 = (if truthy (pf_address_locality r4) \<and> truthy (pf_address_region r4)
                     then r4\<lparr>pf_lives_in := Some (the (pf_address_locality r4) @ '', '' @ the (pf_address_region r4))\<rparr>
                     else r4)
           in case rx_search COUNTY_RE (address_text a) of
                None \<Rightarrow> r5
              | Some county \<Rightarrow> r5\<lparr>pf_country_name := Some county\<rparr>))"

text \<open>One phone dictionary: the defaults, refined by the caption text when there is one.\<close>

definition phone_data_of :: "string \<Rightarrow> string option \<Rightarrow> phone_data" where
  "phone_data_of phone_number info =
     (let d = \<lparr>number = phone_number, phone_type = ''Unknown'', last_reported = [], provider = []\<rparr>
      in case info of
           None \<Rightarrow> d
         | Some info_text \<Rightarrow>
             (let d1 = (if str_in ''Landline'' info_text then d\<lparr>phone_type := ''Landline''\<rparr>
                        else if str_in ''Wireless'' info_text \<or> str_in ''Cell'' info_text \<or> str_in ''Mobile'' info_text
                        then d\<lparr>phone_type := ''Wireless''\<rparr>
                        else d);
                  d2 = (case rx_search LAST_REPORTED_RE info_text of
                          None \<Rightarrow> d1
                        | Some m \<Rightarrow> d1\<lparr>last_reported := ''Last reported '' @ drop (length ''Last reported '') m\<rparr>);
                  provider_lines = filter (\<lambda>line. \<not> str_in ''Last reported'' line \<and> \<not> str_in ''Primary'' line
                                             \<and> \<not> str_in ''Landline'' line \<and> \<not> str_in ''Wireless'' line)
                                     (split_all CHR 0x0A info_text)
              in if provider_lines \<noteq> [] then d2\<lparr>provider := strip (last provider_lines)\<rparr> else d2))"

text \<open>The phone loop: one entry per section with a \<open>telephone\<close> span, appended in scan
  order; the list is never reordered.\<close>

fun api_scan_phones :: "phone_section list \<Rightarrow> phone_data list \<Rightarrow> phone_data list" where
  "api_scan_phones [] phones = phones"
| "api_scan_phones (s # rest) phones =
     (case phone_link s of
        None \<Rightarrow> api_scan_phones rest phones
      | Some None \<Rightarrow> api_scan_phones rest phones
      | Some (Some phone_number) \<Rightarrow>
          api_scan_phones rest (phones @ [phone_data_of phone_number (phone_info s)]))"

text \<open>The email loop: every match of the pattern in a block, in order, unless already
  collected.\<close>

definition add_emails :: "string list \<Rightarrow> string list \<Rightarrow> string list" where
  "add_emails acc email_matches =
     foldl (\<lambda>acc email. if email \<in> set acc then acc else acc @ [email]) acc email_matches"

fun api_scan_emails :: "string list \<Rightarrow> string list \<Rightarrow> string list" where
  "api_scan_emails [] acc = acc"
| "api_scan_emails (email_text # rest) acc =
     (if str_in ''@'' email_text \<and> str_in ''.'' email_text
      then api_scan_emails rest (add_emails acc (rx_findall EMAIL_RE email_text))
      else api_scan_emails rest acc)"

definition api_extract_fields :: "profile_page \<Rightarrow> profile_fields" where
  "api_extract_fields page =
     (let r1 = extract_name_age (name_header page) empty_fields;
          r2 = extract_address (postal_address page) r1;
          r3 = r2\<lparr>pf_phones := api_scan_phones (phone_sections page) []\<rparr>
      in r3\<lparr>pf_emails := api_scan_emails (email_divs page) []\<rparr>)"

section \<open>Query Builder: \<open>TruePeopleSearchAPI.search_by_name\<close>, lines 463 to 472\<close>

text \<open>
  The head of \<open>search_by_name\<close> rebinds its two parameters \<open>name\<close> and
  \<open>city_state\<close>:
  \<^verbatim>\<open>
  if ";" in name and not city_state:
      parts = name.split(";", 1)
      name = parts[0].strip()
      city_state = parts[1].strip() if len(parts) > 1 else None
  \<close>
\<close>

definition parse_name_query :: "string \<Rightarrow> string option \<Rightarrow> string \<times> string option" where
  "parse_name_query name city_state =
     (if str_in '';'' name \<and> \<not> truthy city_state
      then (let parts = split1 CHR '';'' name
            in (strip (parts ! 0),
                if length parts > 1 then Some (strip (parts ! 1)) else None))
      else (name, city_state))"

text \<open>
  The request URL. \<open>quote_plus\<close> is \<open>urllib.parse.quote_plus\<close>, a library function
  and a parameter here.
\<close>

definition NAME_SEARCH_URL :: string where
  "NAME_SEARCH_URL = ''https://www.truepeoplesearch.com/results''"

definition name_search_url :: "(string \<Rightarrow> string) \<Rightarrow> string \<Rightarrow> string option \<Rightarrow> string" where
  "name_search_url quote_plus name0 city_state0 =
     (let (name, city_state) = parse_name_query name0 city_state0;
          url = NAME_SEARCH_URL @ ''?name='' @ quote_plus name
      in if truthy city_state then url @ ''&citystatezip='' @ quote_plus (the city_state) else url)"

text \<open>\<open>input_given\<close> of every record the search builds.\<close>

definition input_given_of :: "string \<Rightarrow> string option \<Rightarrow> string" where
  "input_given_of name city_state =
     name @ (if truthy city_state then ''; '' @ the city_state else '''')"

section \<open>The browser session and the other collaborators\<close>

text \<open>
  The browser, the random generator, the HTML parser and the file system are outside the
  two modules. They are one record of answers. Every call that can answer differently
  from one time to the next is indexed by a tick, the number of such calls made so far,
  so any sequence of answers is some \<open>world\<close>; a call answers with an exception or a
  value. What the code does to the outside is returned as a list of actions, in order.
\<close>

record row =
  r_owner :: owner
  r_current_address :: "string option"
  r_phone_numbers :: string
  r_emails :: string
  r_error :: "string option"

datatype action =
    Sleep real
  | Navigate string
  | Click
  | Quit
  | Start
  | Save string "row list"

record world =
  random01 :: "nat \<Rightarrow> real"
  driver_get :: "nat \<Rightarrow> exn option"
  wait_body :: "nat \<Rightarrow> exn option"
  current_url :: "nat \<Rightarrow> exn + string"
  page_source :: "nat \<Rightarrow> exn + string"
  setup_prelude :: "nat \<Rightarrow> exn option"
  chrome_start :: "nat \<Rightarrow> exn option"
  wait_clickable :: "nat \<Rightarrow> exn option"
  type_into :: "nat \<Rightarrow> exn + string"
  click_submit :: "nat \<Rightarrow> exn option"
  wait_results :: "nat \<Rightarrow> exn option"
  write_excel :: "nat \<Rightarrow> exn option"
  cards_of :: "string \<Rightarrow> card list"
  profile_of :: "string \<Rightarrow> profile_page"
  quote_plus :: "string \<Rightarrow> string"
  read_input :: "exn + owner list"

text \<open>The constructor arguments of both classes.\<close>

record config =
  min_delay :: real
  max_delay :: real
  max_retries :: int

definition api_config :: config where
  "api_config = \<lparr>min_delay = 2, max_delay = 5, max_retries = 3\<rparr>"

definition scraper_config :: config where
  "scraper_config = \<lparr>min_delay = 5, max_delay = 10, max_retries = 3\<rparr>"

definition BASE_URL :: string where
  "BASE_URL = ''https://www.truepeoplesearch.com''"

text \<open>\<open>random.uniform(a, b)\<close> is \<open>a + (b - a) * random()\<close>; \<open>time.sleep\<close> raises
  \<open>ValueError\<close> on a negative length.\<close>

definition uniform :: "real \<Rightarrow> real \<Rightarrow> real \<Rightarrow> real" where
  "uniform a b u = a + (b - a) * u"

definition negative_sleep :: exn where
  "negative_sleep = ValueError ''sleep length must be non-negative''"

section \<open>Session Manager: \<open>_setup_driver\<close>\<close>

text \<open>
  \<open>setup_prelude\<close> is everything before the retry loop (options, environment,
  driver installation); \<open>chrome_start\<close> is one pass through the loop body (launch,
  timeouts, window size, liveness probe). The last failed pass re-raises. The guarded
  \<open>driver.quit()\<close> of a failed pass swallows its own errors and is not recorded.
  The list of attempts is \<open>range(3)\<close>; it is never exhausted, as its last pass
  returns or raises.
\<close>

fun setup_attempts :: "world \<Rightarrow> int list \<Rightarrow> nat \<Rightarrow> (exn + unit) \<times> nat \<times> action list" where
  "setup_attempts w [] t = (Inr (), t, [])"
| "setup_attempts w (attempt # rest) t =
     (case chrome_start w t of
        None \<Rightarrow> (Inr (), Suc t, [Start])
      | Some e \<Rightarrow>
          if attempt = 3 - 1 then (Inl e, Suc t, [Start])
          else (case setup_attempts w rest (Suc t) of
                  (r, t', acts) \<Rightarrow> (r, t', [Start, Sleep (real_of_int ((attempt + 1) * 2))] @ acts)))"

definition setup_driver :: "world \<Rightarrow> nat \<Rightarrow> (exn + unit) \<times> nat \<times> action list" where
  "setup_driver w t =
     (case setup_prelude w t of
        Some e \<Rightarrow> (Inl e, Suc t, [])
      | None \<Rightarrow> setup_attempts w [0, 1, 2] (Suc t))"

section \<open>Fetch Engine: \<open>_make_request\<close>\<close>

text \<open>
  \<open>"challenge" in self.driver.current_url or "captcha" in self.driver.current_url\<close>:
  the property is read once, and a second time only when the first reading has no
  \<open>challenge\<close> in it. The loop test \<open>"challenge" not in ... and "captcha" not in ...\<close>
  reads in the same way and is its negation.
\<close>

definition url_is_challenge :: "world \<Rightarrow> nat \<Rightarrow> (exn + bool) \<times> nat" where
  "url_is_challenge w t =
     (case current_url w t of
        Inl e \<Rightarrow> (Inl e, Suc t)
      | Inr u \<Rightarrow>
          if str_in ''challenge'' u then (Inr True, Suc t)
          else (case current_url w (Suc t) of
                  Inl e \<Rightarrow> (Inl e, Suc (Suc t))
                | Inr u' \<Rightarrow> (Inr (str_in ''captcha'' u'), Suc (Suc t))))"

text \<open>The poll loop, \<open>for retry in range(max_cf_retries)\<close>, by the number of polls left.\<close>

fun cf_poll :: "world \<Rightarrow> nat \<Rightarrow> nat \<Rightarrow> (exn + unit) \<times> nat \<times> action list" where
  "cf_poll w 0 t = (Inr (), t, [])"
| "cf_poll w (Suc n) t =
     (case url_is_challenge w t of
        (Inl e, t') \<Rightarrow> (Inl e, t', [])
      | (Inr False, t') \<Rightarrow> (Inr (), t', [])
      | (Inr True, t') \<Rightarrow>
          (case cf_poll w n t' of (r, t'', acts) \<Rightarrow> (r, t'', Sleep 5 # acts)))"

text \<open>
  The inner \<open>try\<close>: wait for \<open>body\<close>, then the challenge handling. \<open>Inr True\<close> is the
  \<open>return None\<close> of a challenge that did not clear.
\<close>

definition wait_and_challenge :: "world \<Rightarrow> nat \<Rightarrow> (exn + bool) \<times> nat \<times> action list" where
  "wait_and_challenge w t =
     (case wait_body w t of
        Some e \<Rightarrow> (Inl e, Suc t, [])
      | None \<Rightarrow>
          (case url_is_challenge w (Suc t) of
             (Inl e, t1) \<Rightarrow> (Inl e, t1, [])
           | (Inr False, t1) \<Rightarrow> (Inr False, t1, [])
           | (Inr True, t1) \<Rightarrow>
               (case cf_poll w 6 t1 of
                  (Inl e, t2, acts) \<Rightarrow> (Inl e, t2, Sleep 5 # acts)
                | (Inr u, t2, acts) \<Rightarrow>
                    (case url_is_challenge w t2 of
                       (Inl e, t3) \<Rightarrow> (Inl e, t3, Sleep 5 # acts)
                     | (Inr b, t3) \<Rightarrow> (Inr b, t3, Sleep 5 # acts)))))"

text \<open>
  One pass through the body of the outer \<open>try\<close>: it returns, or the inner handler
  catches a \<open>TimeoutException\<close>, or the outer handler catches anything else.
\<close>

datatype attempt_end = Return "string option" | PageTimeout | Failure exn

definition attempt_body :: "config \<Rightarrow> world \<Rightarrow> string \<Rightarrow> nat \<Rightarrow> attempt_end \<times> nat \<times> action list" where
  "attempt_body cfg w url t =
     (let d = uniform (min_delay cfg) (max_delay cfg) (random01 w t)
      in if d < 0 then (Failure negative_sleep, Suc t, [])
         else (case driver_get w (Suc t) of
                 Some e \<Rightarrow> (Failure e, Suc (Suc t), [Sleep d, Navigate url])
               | None \<Rightarrow>
                   (case wait_and_challenge w (Suc (Suc t)) of
                      (Inl e, t1, acts) \<Rightarrow>
                        (if e = TimeoutException then PageTimeout else Failure e, t1,
                         [Sleep d, Navigate url] @ acts)
                    | (Inr True, t1, acts) \<Rightarrow> (Return None, t1, [Sleep d, Navigate url] @ acts)
                    | (Inr False, t1, acts) \<Rightarrow>
                        (case page_source w t1 of
                           Inl e \<Rightarrow> (Failure e, Suc t1, [Sleep d, Navigate url] @ acts @ [Sleep 2])
                         | Inr html \<Rightarrow>
                             (Return (Some html), Suc t1, [Sleep d, Navigate url] @ acts @ [Sleep 2])))))"

text \<open>
  The outer handler on a pass that is not the last: back off, quit the driver (errors
  swallowed), build a new one. \<open>_setup_driver\<close> is called inside the handler, so what it
  raises leaves \<open>_make_request\<close>.
\<close>

definition backoff_and_restart :: "world \<Rightarrow> int \<Rightarrow> nat \<Rightarrow> (exn + unit) \<times> nat \<times> action list" where
  "backoff_and_restart w attempt t =
     (let wait_time = real_of_int ((attempt + 1) * 3) + uniform 1 3 (random01 w t)
      in if wait_time < 0 then (Inl negative_sleep, Suc t, [])
         else (case setup_driver w (Suc t) of
                 (r, t', acts) \<Rightarrow> (r, t', [Sleep wait_time, Quit] @ acts)))"

fun request_loop :: "config \<Rightarrow> world \<Rightarrow> string \<Rightarrow> int list \<Rightarrow> nat \<Rightarrow> (exn + string option) \<times> nat \<times> action list" where
  "request_loop cfg w url [] t = (Inr None, t, [])"
| "request_loop cfg w url (attempt # rest) t =
     (case attempt_body cfg w url t of
        (Return r, t1, acts) \<Rightarrow> (Inr r, t1, acts)
      | (PageTimeout, t1, acts) \<Rightarrow>
          if attempt = max_retries cfg - 1 then (Inr None, t1, acts)
          else (case request_loop cfg w url rest t1 of
                  (r, t2, acts') \<Rightarrow> (r, t2, acts @ acts'))
      | (Failure e, t1, acts) \<Rightarrow>
          if attempt = max_retries cfg - 1 then (Inr None, t1, acts)
          else (case backoff_and_restart w attempt t1 of
                  (Inl e', t2, acts2) \<Rightarrow> (Inl e', t2, acts @ acts2)
                | (Inr u, t2, acts2) \<Rightarrow>
                    (case request_loop cfg w url rest t2 of
                       (r, t3, acts3) \<Rightarrow> (r, t3, acts @ acts2 @ acts3))))"

text \<open>
  \<open>_make_request(url)\<close> of both classes (\<open>scraper.py\<close> never passes its optional
  \<open>params\<close>, so its \<open>full_url\<close> is \<open>url\<close>). \<open>Inl\<close> is an exception that reaches the
  caller, \<open>Inr None\<close> the value \<open>None\<close>, \<open>Inr (Some html)\<close> the page source.
\<close>

definition make_request :: "config \<Rightarrow> world \<Rightarrow> string \<Rightarrow> nat \<Rightarrow> (exn + string option) \<times> nat \<times> action list" where
  "make_request cfg w url t = request_loop cfg w url (map int [0..<nat (max_retries cfg)]) t"

text \<open>
  The state of the retry loop at the start of its pass number \<open>n\<close> (counted from 0):
  the attempts still to run, the current one first, the tick, and the actions done in
  the passes before. It is \<open>None\<close> when the loop has ended before: the loop goes on
  to a next pass only from the \<open>continue\<close> of the inner handler and from the end of
  the outer handler, on a pass that is not the last.
\<close>

fun pass_start :: "config \<Rightarrow> world \<Rightarrow> string \<Rightarrow> nat \<Rightarrow> int list \<Rightarrow> nat \<Rightarrow> (int list \<times> nat \<times> action list) option" where
  "pass_start cfg w url 0 attempts t = Some (attempts, t, [])"
| "pass_start cfg w url (Suc n) [] t = None"
| "pass_start cfg w url (Suc n) (attempt # rest) t =
     (case attempt_body cfg w url t of
        (Return r, t1, acts) \<Rightarrow> None
      | (PageTimeout, t1, acts) \<Rightarrow>
          if attempt = max_retries cfg - 1 then None
          else (case pass_start cfg w url n rest t1 of
                  None \<Rightarrow> None
                | Some (attempts', t2, acts') \<Rightarrow> Some (attempts', t2, acts @ acts'))
      | (Failure e, t1, acts) \<Rightarrow>
          if attempt = max_retries cfg - 1 then None
          else (case backoff_and_restart w attempt t1 of
                  (Inl e', t2, acts2) \<Rightarrow> None
                | (Inr u, t2, acts2) \<Rightarrow>
                    (case pass_start cfg w url n rest t2 of
                       None \<Rightarrow> None
                     | Some (attempts', t3, acts3) \<Rightarrow> Some (attempts', t3, acts @ acts2 @ acts3))))"

subsection \<open>Pacing of navigations\<close>

text \<open>
  A navigation is a \<open>driver.get\<close> or a click on the submit control. \<open>pacing_ok lo hi prev acts\<close>:
  every navigation in \<open>acts\<close> comes right after a sleep of a length in \<open>[lo, hi]\<close>
  (\<open>prev\<close> is the action before \<open>acts\<close>, if any).
\<close>

fun is_nav :: "action \<Rightarrow> bool" where
  "is_nav (Navigate u) = True"
| "is_nav Click = True"
| "is_nav a = False"

fun paced_by :: "real \<Rightarrow> real \<Rightarrow> action option \<Rightarrow> bool" where
  "paced_by lo hi (Some (Sleep d)) = (lo \<le> d \<and> d \<le> hi)"
| "paced_by lo hi p = False"

fun pacing_ok :: "real \<Rightarrow> real \<Rightarrow> action option \<Rightarrow> action list \<Rightarrow> bool" where
  "pacing_ok lo hi prev [] = True"
| "pacing_ok lo hi prev (a # rest) =
     ((if is_nav a then paced_by lo hi prev else True) \<and> pacing_ok lo hi (Some a) rest)"

section \<open>Batch path: \<open>search_by_address\<close>, \<open>extract_profile_info\<close>, \<open>save_results\<close>, \<open>main\<close>\<close>

text \<open>\<open>f"{x}"\<close> of an optional string.\<close>

fun fmt :: "string option \<Rightarrow> string" where
  "fmt None = ''None''"
| "fmt (Some s) = s"

text \<open>
  Filling one field, up to three times: \<open>clear\<close>, \<open>send_keys\<close>, read the value back.
  \<open>send_keys(None)\<close> raises; the bare \<open>except\<close> sleeps one second and tries again.
\<close>

fun fill_loop :: "world \<Rightarrow> string option \<Rightarrow> nat \<Rightarrow> nat \<Rightarrow> nat \<times> action list" where
  "fill_loop w v 0 t = (t, [])"
| "fill_loop w v (Suc n) t =
     (case (case v of None \<Rightarrow> Inl (TypeError ''send_keys'') | Some s \<Rightarrow> type_into w t) of
        Inr v' \<Rightarrow> if Some v' = v then (Suc t, []) else fill_loop w v n (Suc t)
      | Inl e \<Rightarrow> (case fill_loop w v n (Suc t) of (t', acts) \<Rightarrow> (t', Sleep 1 # acts)))"

fun click_loop :: "world \<Rightarrow> nat \<Rightarrow> nat \<Rightarrow> nat \<times> action list" where
  "click_loop w 0 t = (t, [])"
| "click_loop w (Suc n) t =
     (case click_submit w t of
        None \<Rightarrow> (Suc t, [Click])
      | Some e \<Rightarrow> (case click_loop w n (Suc t) of (t', acts) \<Rightarrow> (t', [Click, Sleep 1] @ acts)))"

text \<open>Waiting for the results, \<open>for retry in range(3)\<close>: \<open>Inr False\<close> is the
  \<open>return None\<close> of the last timeout; another exception goes to the outer handler.\<close>

fun results_loop :: "world \<Rightarrow> int list \<Rightarrow> nat \<Rightarrow> (exn + bool) \<times> nat \<times> action list" where
  "results_loop w [] t = (Inr True, t, [])"
| "results_loop w (retry # rest) t =
     (case wait_results w t of
        None \<Rightarrow> (Inr True, Suc t, [])
      | Some e \<Rightarrow>
          if e = TimeoutException
          then (if retry = 3 - 1 then (Inr False, Suc t, [])
                else (case results_loop w rest (Suc t) of (r, t', acts) \<Rightarrow> (r, t', Sleep 2 # acts)))
          else (Inl e, Suc t, []))"

text \<open>
  The \<open>try\<close> block of \<open>search_by_address\<close>: \<open>None\<close> is each of its \<open>return None\<close>
  (the handler of \<open>except Exception\<close> included), \<open>Some html\<close> the page source read at
  its end.
\<close>

definition form_interaction :: "world \<Rightarrow> owner \<Rightarrow> nat \<Rightarrow> string option \<times> nat \<times> action list" where
  "form_interaction w ow t =
     (if wait_clickable w t \<noteq> None then (None, Suc t, [])
      else if wait_clickable w (t + 1) \<noteq> None then (None, t + 2, [])
      else if wait_clickable w (t + 2) \<noteq> None then (None, t + 3, [])
      else (case fill_loop w (mailing_address ow) 3 (t + 3) of (t1, a1) \<Rightarrow>
           (case fill_loop w (Some (fmt (mailing_city ow) @ '', '' @ fmt (mailing_state ow))) 3 t1 of (t2, a2) \<Rightarrow>
           (case click_loop w 3 t2 of (t3, a3) \<Rightarrow>
           (case results_loop w [0, 1, 2] t3 of (r, t4, a4) \<Rightarrow>
              (let acts = [Sleep 2] @ a1 @ a2 @ [Sleep 1] @ a3 @ a4
               in case r of
                    Inl e \<Rightarrow> (None, t4, acts)
                  | Inr False \<Rightarrow> (None, t4, acts)
                  | Inr True \<Rightarrow>
                      (case page_source w t4 of
                         Inl e \<Rightarrow> (None, Suc t4, acts)
                       | Inr html \<Rightarrow> (Some html, Suc t4, acts))))))))"

definition name_matches :: "owner \<Rightarrow> string \<Rightarrow> bool" where
  "name_matches ow name_text =
     (let name = py_lower name_text; owner_name = py_lower (full_name ow)
      in list_ex (\<lambda>part. str_in (py_lower part) name) (py_words owner_name))"

fun first_match :: "owner \<Rightarrow> card list \<Rightarrow> string option" where
  "first_match ow [] = None"
| "first_match ow (c # cs) =
     (case name_div c of
        None \<Rightarrow> first_match ow cs
      | Some name_text \<Rightarrow>
          if name_matches ow name_text
          then (case detail_link c of
                  Some (Some href) \<Rightarrow> Some (BASE_URL @ href)
                | _ \<Rightarrow> first_match ow cs)
          else first_match ow cs)"

definition search_by_address :: "config \<Rightarrow> world \<Rightarrow> owner \<Rightarrow> nat \<Rightarrow> (exn + string option) \<times> nat \<times> action list" where
  "search_by_address cfg w ow t =
     (case make_request cfg w BASE_URL t of
        (Inl e, t1, a1) \<Rightarrow> (Inl e, t1, a1)
      | (Inr html, t1, a1) \<Rightarrow>
          if \<not> truthy html then (Inr None, t1, a1)
          else (case form_interaction w ow t1 of
                  (None, t2, a2) \<Rightarrow> (Inr None, t2, a1 @ a2)
                | (Some html2, t2, a2) \<Rightarrow> (Inr (first_match ow (cards_of w html2)), t2, a1 @ a2)))"

definition extract_profile_info :: "config \<Rightarrow> world \<Rightarrow> string \<Rightarrow> nat \<Rightarrow> (exn + batch_info) \<times> nat \<times> action list" where
  "extract_profile_info cfg w profile_url t =
     (case make_request cfg w profile_url t of
        (Inl e, t1, a1) \<Rightarrow> (Inl e, t1, a1)
      | (Inr html, t1, a1) \<Rightarrow>
          if \<not> truthy html then (Inr EmptyDict, t1, a1)
          else (extract_profile_fields (profile_of w (the html)), t1, a1))"

text \<open>
  \<open>save_results\<close>: one row per result, sorted by \<open>Row Index\<close>, written to the file.
  The write is recorded when it succeeds.
\<close>

definition to_row :: "scraping_result \<Rightarrow> row" where
  "to_row r =
     \<lparr>r_owner = owner_of r, r_current_address = current_address r,
      r_phone_numbers = join ''; '' (phone_numbers r), r_emails = join ''; '' (emails r),
      r_error = error r\<rparr>"

definition save_results :: "world \<Rightarrow> scraping_result list \<Rightarrow> string \<Rightarrow> nat \<Rightarrow> (exn + unit) \<times> nat \<times> action list" where
  "save_results w results output_file t =
     (case write_excel w t of
        Some e \<Rightarrow> (Inl e, Suc t, [])
      | None \<Rightarrow>
          (Inr (), Suc t, [Save output_file (sort_key (\<lambda>r. row_index (r_owner r)) (map to_row results))]))"

text \<open>
  The body of the loop over one batch, for one owner: \<open>results\<close> is the list before
  the owner, the first component of the value is the list after it.
\<close>

definition process_owner :: "config \<Rightarrow> world \<Rightarrow> string \<Rightarrow> scraping_result list \<Rightarrow> owner \<Rightarrow> nat \<Rightarrow> scraping_result list \<times> nat \<times> action list" where
  "process_owner cfg w output_file results ow t =
     (let result = ScrapingResult ow
      in case search_by_address cfg w ow t of
           (Inl e, t1, a1) \<Rightarrow> (results @ [result\<lparr>error := Some (str_exn e)\<rparr>], t1, a1)
         | (Inr profile_url, t1, a1) \<Rightarrow>
             if \<not> truthy profile_url
             then (results @ [result\<lparr>error := Some ''Profile not found''\<rparr>], t1, a1)
             else (case extract_profile_info cfg w (the profile_url) t1 of
                     (Inl e, t2, a2) \<Rightarrow> (results @ [result\<lparr>error := Some (str_exn e)\<rparr>], t2, a1 @ a2)
                   | (Inr profile_info, t2, a2) \<Rightarrow>
                       (let result' = result\<lparr>current_address := get_current_address profile_info,
                                             phone_numbers := get_phone_numbers profile_info,
                                             emails := get_emails profile_info\<rparr>
                        in if results \<noteq> []
                           then (case save_results w results (output_file @ ''.partial'') t2 of
                                   (Inl e, t3, a3) \<Rightarrow>
                                     (results @ [result'\<lparr>error := Some (str_exn e)\<rparr>], t3, a1 @ a2 @ a3)
                                 | (Inr u, t3, a3) \<Rightarrow> (results @ [result'], t3, a1 @ a2 @ a3))
                           else (results @ [result'], t2, a1 @ a2))))"

fun process_batch :: "config \<Rightarrow> world \<Rightarrow> string \<Rightarrow> owner list \<Rightarrow> scraping_result list \<Rightarrow> nat \<Rightarrow> scraping_result list \<times> nat \<times> action list" where
  "process_batch cfg w output_file [] results t = (results, t, [])"
| "process_batch cfg w output_file (ow # batch) results t =
     (case process_owner cfg w output_file results ow t of
        (results1, t1, a1) \<Rightarrow>
          (case process_batch cfg w output_file batch results1 t1 of
             (results2, t2, a2) \<Rightarrow> (results2, t2, a1 @ a2)))"

text \<open>
  The loop over the batches, \<open>for batch_start in range(0, total_owners, batch_size)\<close>
  with a positive \<open>batch_size\<close>, by the owners still to process. The first component is
  an exception that leaves the loop.
\<close>

function batch_loop :: "config \<Rightarrow> world \<Rightarrow> string \<Rightarrow> nat \<Rightarrow> owner list \<Rightarrow> scraping_result list \<Rightarrow> nat \<Rightarrow> exn option \<times> scraping_result list \<times> nat \<times> action list" where
  "batch_loop cfg w output_file batch_size owners results t =
     (if owners = [] \<or> batch_size = 0 then (None, results, t, [])
      else (case process_batch cfg w output_file (take batch_size owners) results t of
              (results1, t1, a1) \<Rightarrow>
                if drop batch_size owners \<noteq> []
                then (let delay = uniform 15 30 (random01 w t1)
                      in if delay < 0 then (Some negative_sleep, results1, Suc t1, a1)
                         else (case batch_loop cfg w output_file batch_size (drop batch_size owners) results1 (Suc t1) of
                                 (e, results2, t2, a2) \<Rightarrow> (e, results2, t2, a1 @ [Sleep delay] @ a2)))
                else (None, results1, t1, a1)))"
  by pat_completeness auto
termination
  by (relation "measure (\<lambda>(cfg, w, output_file, batch_size, owners, results, t). length owners)") auto

declare batch_loop.simps [simp del]

text \<open>
  \<open>main\<close>: read the input (an error there returns), build the scraper (an error there
  leaves \<open>main\<close>), run the batches, and in the \<open>finally\<close> block save what there is and
  quit the driver. \<open>range\<close> raises \<open>ValueError\<close> for a zero step and is empty for a
  negative one.
\<close>

definition main :: "world \<Rightarrow> string \<Rightarrow> int \<Rightarrow> nat \<Rightarrow> (exn + unit) \<times> nat \<times> action list" where
  "main w output_file batch_size t =
     (case read_input w of
        Inl e \<Rightarrow> (Inr (), t, [])
      | Inr owners \<Rightarrow>
          (case setup_driver w t of
             (Inl e, t1, a1) \<Rightarrow> (Inl e, t1, a1)
           | (Inr u, t1, a1) \<Rightarrow>
               (case (if batch_size = 0 then (Some (ValueError ''range() arg 3 must not be zero''), [], t1, [])
                      else if batch_size < 0 then (None, [], t1, [])
                      else batch_loop scraper_config w output_file (nat batch_size) owners [] t1) of
                  (e, results, t2, a2) \<Rightarrow>
                    if results \<noteq> []
                    then (case save_results w results output_file t2 of
                            (Inl e', t3, a3) \<Rightarrow> (Inl e', t3, a1 @ a2 @ a3)
                          | (Inr u', t3, a3) \<Rightarrow>
                              (case e of None \<Rightarrow> Inr () | Some x \<Rightarrow> Inl x, t3, a1 @ a2 @ a3 @ [Quit]))
                    else (case e of None \<Rightarrow> Inr () | Some x \<Rightarrow> Inl x, t2, a1 @ a2 @ [Quit]))))"

section \<open>Request-response path: \<open>search_by_name\<close> and the \<open>/search\<close> endpoint\<close>

definition api_extract_profile_info :: "config \<Rightarrow> world \<Rightarrow> string \<Rightarrow> nat \<Rightarrow> (exn + profile_fields option) \<times> nat \<times> action list" where
  "api_extract_profile_info cfg w profile_url t =
     (case make_request cfg w profile_url t of
        (Inl e, t1, a1) \<Rightarrow> (Inl e, t1, a1)
      | (Inr html, t1, a1) \<Rightarrow>
          if \<not> truthy html then (Inr None, t1, a1)
          else (Inr (Some (api_extract_fields (profile_of w (the html)))), t1, a1))"

definition success_result :: "string \<Rightarrow> string \<Rightarrow> profile_fields \<Rightarrow> string \<Rightarrow> search_result" where
  "success_result opt given info person_link =
     \<lparr>search_option = opt, input_given = given, sr_first_name = pf_first_name info,
      sr_last_name = pf_last_name info, sr_age = pf_age info, sr_lives_in = pf_lives_in info,
      sr_street_address = pf_street_address info, sr_address_locality = pf_address_locality info,
      sr_address_region = pf_address_region info, sr_postal_code = pf_postal_code info,
      sr_country_name = pf_country_name info, sr_emails = pf_emails info,
      sr_phones = pf_phones info, sr_person_link = Some person_link, sr_error = None\<rparr>"

text \<open>The loop over the cards: a card without a link with \<open>href\<close>, or whose profile
  gave \<open>{}\<close>, is skipped.\<close>

fun process_cards :: "config \<Rightarrow> world \<Rightarrow> string \<Rightarrow> string \<Rightarrow> card list \<Rightarrow> search_result list \<Rightarrow> nat \<Rightarrow> (exn + search_result list) \<times> nat \<times> action list" where
  "process_cards cfg w opt given [] results t = (Inr results, t, [])"
| "process_cards cfg w opt given (c # cs) results t =
     (case detail_link c of
        Some (Some href) \<Rightarrow>
          (case api_extract_profile_info cfg w (BASE_URL @ href) t of
             (Inl e, t1, a1) \<Rightarrow> (Inl e, t1, a1)
           | (Inr None, t1, a1) \<Rightarrow>
               (case process_cards cfg w opt given cs results t1 of
                  (r, t2, a2) \<Rightarrow> (r, t2, a1 @ a2))
           | (Inr (Some info), t1, a1) \<Rightarrow>
               (case process_cards cfg w opt given cs
                       (results @ [success_result opt given info (BASE_URL @ href)]) t1 of
                  (r, t2, a2) \<Rightarrow> (r, t2, a1 @ a2)))
      | _ \<Rightarrow> process_cards cfg w opt given cs results t)"

definition search_by_name :: "config \<Rightarrow> world \<Rightarrow> string \<Rightarrow> string option \<Rightarrow> int \<Rightarrow> nat \<Rightarrow> (exn + search_result list) \<times> nat \<times> action list" where
  "search_by_name cfg w name0 city_state0 max_results t =
     (let (name, city_state) = parse_name_query name0 city_state0;
          url = name_search_url (quote_plus w) name0 city_state0;
          given = input_given_of name city_state
      in case make_request cfg w url t of
           (Inl e, t1, a1) \<Rightarrow> (Inl e, t1, a1)
         | (Inr html, t1, a1) \<Rightarrow>
             if \<not> truthy html
             then (Inr [error_result ''Name Search'' given ''Failed to retrieve search results''], t1, a1)
             else if cards_of w (the html) = []
             then (Inr [error_result ''Name Search'' given ''No results found''], t1, a1)
             else (case process_cards cfg w ''Name Search'' given
                          (slice_to max_results (cards_of w (the html))) [] t1 of
                     (Inl e, t2, a2) \<Rightarrow> (Inl e, t2, a1 @ a2)
                   | (Inr results, t2, a2) \<Rightarrow>
                       if results = []
                       then (Inr [error_result ''Name Search'' given ''No valid results could be processed''],
                             t2, a1 @ a2)
                       else (Inr results, t2, a1 @ a2)))"

subsection \<open>The class and the endpoint\<close>

text \<open>
  The attributes of a \<open>TruePeopleSearchAPI\<close> instance: what the class body (lines 178
  to 539) and \<open>__init__\<close> bind. The \<open>def search_by_address\<close> and \<open>def search_by_phone\<close>
  of lines 548 and 641 stand inside \<open>if __name__ == "__main__":\<close> blocks at module
  level, after \<open>app.run\<close>; they bind module-level names, if they are reached at all, and
  are not in this list.
\<close>

definition TruePeopleSearchAPI_attrs :: "string list" where
  "TruePeopleSearchAPI_attrs =
     [''BASE_URL'', ''NAME_SEARCH_URL'', ''ADDRESS_SEARCH_URL'', ''PHONE_SEARCH_URL'',
      ''__init__'', ''_setup_driver'', ''_add_delay'', ''_make_request'', ''__del__'',
      ''_extract_profile_info'', ''search_by_name'',
      ''ua'', ''min_delay'', ''max_delay'', ''max_retries'', ''driver'']"

text \<open>A name between apostrophes, as Python's attribute-lookup message shows it.\<close>

definition quoted :: "string \<Rightarrow> string" where
  "quoted s = CHR 0x27 # s @ [CHR 0x27]"

text \<open>\<open>api_instance.<meth>(query, max_results=max_results)\<close>: attribute lookup, then the
  call.\<close>

definition call_method :: "config \<Rightarrow> world \<Rightarrow> string \<Rightarrow> string \<Rightarrow> int \<Rightarrow> nat \<Rightarrow> (exn + search_result list) \<times> nat \<times> action list" where
  "call_method cfg w meth query max_results t =
     (if meth \<notin> set TruePeopleSearchAPI_attrs
      then (Inl (AttributeError (quoted ''TruePeopleSearchAPI'' @ '' object has no attribute '' @ quoted meth)), t, [])
      else if meth = ''search_by_name'' then search_by_name cfg w query None max_results t
      else (Inl (TypeError (meth @ '' does not take these arguments'')), t, []))"

text \<open>\<open>if api_instance is None: api_instance = TruePeopleSearchAPI()\<close>; the flag says
  whether the global is set.\<close>

definition ensure_instance :: "world \<Rightarrow> bool \<Rightarrow> nat \<Rightarrow> (exn + unit) \<times> nat \<times> action list" where
  "ensure_instance w inst t = (if inst then (Inr (), t, []) else setup_driver w t)"

fun run_queries :: "config \<Rightarrow> world \<Rightarrow> string \<Rightarrow> int \<Rightarrow> string list \<Rightarrow> bool \<Rightarrow> nat \<Rightarrow> (exn + search_result list) \<times> bool \<times> nat \<times> action list" where
  "run_queries cfg w meth max_results [] inst t = (Inr [], inst, t, [])"
| "run_queries cfg w meth max_results (q # qs) inst t =
     (case ensure_instance w inst t of
        (Inl e, t1, a1) \<Rightarrow> (Inl e, inst, t1, a1)
      | (Inr u, t1, a1) \<Rightarrow>
          (case call_method cfg w meth q max_results t1 of
             (Inl e, t2, a2) \<Rightarrow> (Inl e, True, t2, a1 @ a2)
           | (Inr rs, t2, a2) \<Rightarrow>
               (case run_queries cfg w meth max_results qs True t2 of
                  (Inl e, i, t3, a3) \<Rightarrow> (Inl e, i, t3, a1 @ a2 @ a3)
                | (Inr rs', i, t3, a3) \<Rightarrow> (Inr (rs @ rs'), i, t3, a1 @ a2 @ a3))))"

text \<open>
  The request body: the keys the endpoint reads, each absent or present. The three
  blocks of the endpoint are the same code on a different key, method and result key;
  a block runs when its key is present with a non-empty list.
\<close>

record request_data =
  q_name :: "string list option"
  q_street_citystatezip :: "string list option"
  q_phone_number :: "string list option"
  q_max_results :: "int option"

datatype response =
    Json "(string \<times> search_result list) list"
  | Json_error string nat

fun run_blocks :: "config \<Rightarrow> world \<Rightarrow> int \<Rightarrow> (string list option \<times> string \<times> string) list \<Rightarrow> (string \<times> search_result list) list \<Rightarrow> bool \<Rightarrow> nat \<Rightarrow> (exn + (string \<times> search_result list) list) \<times> bool \<times> nat \<times> action list" where
  "run_blocks cfg w max_results [] acc inst t = (Inr acc, inst, t, [])"
| "run_blocks cfg w max_results ((queries, meth, key) # blocks) acc inst t =
     (case queries of
        None \<Rightarrow> run_blocks cfg w max_results blocks acc inst t
      | Some [] \<Rightarrow> run_blocks cfg w max_results blocks acc inst t
      | Some (q # qs) \<Rightarrow>
          (case run_queries cfg w meth max_results (q # qs) inst t of
             (Inl e, i, t1, a1) \<Rightarrow> (Inl e, i, t1, a1)
           | (Inr rs, i, t1, a1) \<Rightarrow>
               (case run_blocks cfg w max_results blocks (acc @ [(key, rs)]) i t1 of
                  (r, i', t2, a2) \<Rightarrow> (r, i', t2, a1 @ a2))))"

definition search :: "config \<Rightarrow> world \<Rightarrow> request_data option \<Rightarrow> bool \<Rightarrow> nat \<Rightarrow> response \<times> bool \<times> nat \<times> action list" where
  "search cfg w json inst t =
     (case json of
        None \<Rightarrow> (Json_error ''No JSON data provided'' 400, inst, t, [])
      | Some data \<Rightarrow>
          if q_name data = None \<and> q_street_citystatezip data = None
             \<and> q_phone_number data = None \<and> q_max_results data = None
          then (Json_error ''No JSON data provided'' 400, inst, t, [])
          else (case run_blocks cfg w (case q_max_results data of None \<Rightarrow> 1 | Some n \<Rightarrow> n)
                       [(q_name data, ''search_by_name'', ''name_results''),
                        (q_street_citystatezip data, ''search_by_address'', ''address_results''),
                        (q_phone_number data, ''search_by_phone'', ''phone_results'')] [] inst t of
                  (Inl e, i, t1, a1) \<Rightarrow> (Json_error (str_exn e) 500, i, t1, a1)
                | (Inr results, i, t1, a1) \<Rightarrow> (Json results, i, t1, a1)))"

section \<open>Reference notions used in the statements\<close>

text \<open>Deduplication by equality that keeps the first occurrence of each element, in the
  order of first occurrence.\<close>

fun dedup_first :: "'a list \<Rightarrow> 'a list" where
  "dedup_first [] = []"
| "dedup_first (x # xs) = x # filter (\<lambda>y. y \<noteq> x) (dedup_first xs)"

section \<open>A world in which nothing fails\<close>

text \<open>
  Used to evaluate the definitions: the random generator answers \<open>0\<close>, every call
  succeeds, the browser is at \<open>https://www.truepeoplesearch.com/\<close> and every page is
  the text \<open>page\<close>, with one card (for \<open>Ann Lee\<close>) and one phone section; the input
  file has two owners.
\<close>

definition ann :: owner where
  "ann = \<lparr>first_name = ''Ann'', last_name = ''Lee'', property_address = None, property_city = None,
          property_state = None, property_zip = None, mailing_address = Some ''1 Main St'',
          mailing_city = Some ''Troy'', mailing_state = Some ''NY'', mailing_zip = None, row_index = 0\<rparr>"

definition bob :: owner where
  "bob = ann\<lparr>first_name := ''Bob'', row_index := 1\<rparr>"

definition calm_world :: world where
  "calm_world =
     \<lparr>random01 = (\<lambda>t. 0), driver_get = (\<lambda>t. None), wait_body = (\<lambda>t. None),
      current_url = (\<lambda>t. Inr ''https://www.truepeoplesearch.com/''),
      page_source = (\<lambda>t. Inr ''page''), setup_prelude = (\<lambda>t. None), chrome_start = (\<lambda>t. None),
      wait_clickable = (\<lambda>t. None), type_into = (\<lambda>t. Inr []), click_submit = (\<lambda>t. None),
      wait_results = (\<lambda>t. None), write_excel = (\<lambda>t. None),
      cards_of = (\<lambda>html. [\<lparr>name_div = Some ''Ann Lee'', detail_link = Some (Some ''/find/ann'')\<rparr>]),
      profile_of = (\<lambda>html. \<lparr>name_header = Some ''Ann Lee, 40'', postal_address = None,
                              phone_sections = [\<lparr>phone_link = Some (Some ''555-0100''), phone_info = None\<rparr>],
                              email_divs = []\<rparr>),
      quote_plus = (\<lambda>s. s), read_input = Inr [ann, bob]\<rparr>"

definition sleep_total :: "action list \<Rightarrow> real" where
  "sleep_total acts = sum_list (map (\<lambda>a. case a of Sleep d \<Rightarrow> d | _ \<Rightarrow> 0) acts)"

text \<open>No navigation among the actions.\<close>

definition no_nav :: "action list \<Rightarrow> bool" where
  "no_nav acts = list_all (\<lambda>a. \<not> is_nav a) acts"

section \<open>Notions used in the statements about extraction\<close>

text \<open>
  The text of the \<open>telephone\<close> span of a phone section, if it has one; the texts of
  all sections in scan order; a section is flagged when it has a phone anchor and its
  caption contains \<open>Possible Primary Phone\<close>; a block passes the email guard when its
  text contains \<open>@\<close> and \<open>.\<close>.
\<close>

definition telephone :: "phone_section \<Rightarrow> string option" where
  "telephone s = (case phone_link s of Some (Some p) \<Rightarrow> Some p | _ \<Rightarrow> None)"

definition telephones :: "phone_section list \<Rightarrow> string list" where
  "telephones ss = List.map_filter telephone ss"

definition flagged :: "phone_section \<Rightarrow> bool" where
  "flagged s \<longleftrightarrow> phone_link s \<noteq> None \<and>
     (case phone_info s of None \<Rightarrow> False | Some info_text \<Rightarrow> str_in ''Possible Primary Phone'' info_text)"

definition has_at_dot :: "string \<Rightarrow> bool" where
  "has_at_dot s \<longleftrightarrow> str_in ''@'' s \<and> str_in ''.'' s"

section \<open>Notions used in the statements about records and checkpoints\<close>

text \<open>A record with every optional identity, address and contact field absent.\<close>

definition sr_absent :: "search_result \<Rightarrow> bool" where
  "sr_absent r \<longleftrightarrow>
     sr_first_name r = None \<and> sr_last_name r = None \<and> sr_age r = None \<and> sr_lives_in r = None
     \<and> sr_street_address r = None \<and> sr_address_locality r = None \<and> sr_address_region r = None
     \<and> sr_postal_code r = None \<and> sr_country_name r = None \<and> sr_emails r = []
     \<and> sr_phones r = [] \<and> sr_person_link r = None"

definition sc_absent :: "scraping_result \<Rightarrow> bool" where
  "sc_absent r \<longleftrightarrow> current_address r = None \<and> phone_numbers r = [] \<and> emails r = []"

text \<open>The files written, in order: path and rows of each \<open>Save\<close>.\<close>

fun saves :: "action list \<Rightarrow> (string \<times> row list) list" where
  "saves [] = []"
| "saves (Save path rows # acts) = (path, rows) # saves acts"
| "saves (a # acts) = saves acts"

text \<open>No record, and no row of a written file, has a current address.\<close>

definition no_address :: "scraping_result list \<Rightarrow> bool" where
  "no_address results = list_all (\<lambda>r. current_address r = None) results"

definition rows_without_address :: "action list \<Rightarrow> bool" where
  "rows_without_address acts =
     list_all (\<lambda>(path, rows). list_all (\<lambda>row. r_current_address row = None) rows) (saves acts)"

section \<open>Properties of the Query Builder\<close>

lemma str_in_single: "str_in [c] s \<longleftrightarrow> c \<in> set s"
  by (induction s) auto

lemma split1_length: "c \<in> set s \<Longrightarrow> length (split1 c s) = 2"
  by (simp add: split1_def)

text \<open>
  C9 (as stated) fails: with an explicit locality the name is not split at all, the
  \<open>;\<close> and the suffix stay in the name part.
\<close>

theorem C9_counterexample:
  "parse_name_query ''Jane Doe; Springfield, IL'' (Some ''Boston, MA'')
     = (''Jane Doe; Springfield, IL'', Some ''Boston, MA'')"
  by (simp add: parse_name_query_def)

text \<open>
  C9 (amended): a name containing \<open>;\<close> is split once, at the first \<open>;\<close>, into the
  stripped text before it and the stripped text after it, exactly when no non-empty
  explicit locality is supplied; with a non-empty explicit locality that locality is kept
  and the name is left whole. \<open>"Jane Doe; Springfield, IL"\<close> without a locality gives
  \<open>"Jane Doe"\<close> and \<open>"Springfield, IL"\<close>.
\<close>

theorem C9_name_split:
  "(CHR '';'' \<in> set name \<and> \<not> truthy city_state \<longrightarrow>
      parse_name_query name city_state =
        (strip (takeWhile (\<lambda>c. c \<noteq> CHR '';'') name),
         Some (strip (drop 1 (dropWhile (\<lambda>c. c \<noteq> CHR '';'') name)))))
   \<and> (truthy city_state \<longrightarrow> parse_name_query name city_state = (name, city_state))
   \<and> parse_name_query ''Jane Doe; Springfield, IL'' None = (''Jane Doe'', Some ''Springfield, IL'')"
  by (simp add: parse_name_query_def str_in_single split1_def strip_def is_space_def)

theorem C9_name_split_witness:
  "CHR '';'' \<in> set ''A B;C'' \<and> \<not> truthy (Some '''')
   \<and> parse_name_query ''A B;C'' (Some '''') = (''A B'', Some ''C'')
   \<and> truthy (Some ''X'') \<and> parse_name_query ''A B;C'' (Some ''X'') = (''A B;C'', Some ''X'')"
  using C9_name_split [of "''A B;C''" "Some ''''"] C9_name_split [of "''A B;C''" "Some ''X''"]
  by (simp add: strip_def is_space_def)

section \<open>Properties of the Fetch Engine\<close>

lemma attempts_3: "map int [0..<3] = [0, 1, 2]"
  by (simp add: upt_rec)

lemma setup_driver_calm: "setup_driver calm_world t = (Inr (), Suc (Suc t), [Start])"
  by (simp add: setup_driver_def calm_world_def)

subsection \<open>Exceptions that leave \<open>_make_request\<close>\<close>

lemma backoff_returns:
  assumes "0 \<le> random01 w t" and "0 \<le> attempt" and "fst (setup_driver w (Suc t)) = Inr ()"
  shows "\<exists>t' acts. backoff_and_restart w attempt t = (Inr (), t', acts)"
proof -
  have "0 \<le> real_of_int ((attempt + 1) * 3) + uniform 1 3 (random01 w t)"
    using assms(1,2) by (simp add: uniform_def)
  moreover obtain r t' acts where s: "setup_driver w (Suc t) = (r, t', acts)"
    by (cases "setup_driver w (Suc t)") auto
  ultimately show ?thesis
    using assms(3) by (simp add: backoff_and_restart_def Let_def s)
qed

lemma request_loop_returns:
  assumes "\<forall>k. 0 \<le> random01 w k" and "\<forall>k. fst (setup_driver w k) = Inr ()"
    and "\<forall>a \<in> set attempts. 0 \<le> a"
  shows "\<exists>r. fst (request_loop cfg w url attempts t) = Inr r"
  using assms(3)
proof (induction attempts arbitrary: t)
  case Nil
  then show ?case by simp
next
  case (Cons attempt rest)
  obtain e t1 acts where b: "attempt_body cfg w url t = (e, t1, acts)"
    by (cases "attempt_body cfg w url t") auto
  have rest: "\<And>t'. \<exists>r. fst (request_loop cfg w url rest t') = Inr r"
    using Cons by simp
  show ?case
  proof (cases e)
    case (Return r)
    then show ?thesis by (simp add: b)
  next
    case PageTimeout
    obtain r t2 acts' where l: "request_loop cfg w url rest t1 = (r, t2, acts')"
      by (cases "request_loop cfg w url rest t1") auto
    with rest [of t1] show ?thesis by (auto simp: b PageTimeout)
  next
    case (Failure x)
    have "0 \<le> attempt" using Cons.prems by simp
    then obtain t2 acts2 where k: "backoff_and_restart w attempt t1 = (Inr (), t2, acts2)"
      using backoff_returns [of w t1 attempt] assms(1,2) by blast
    obtain r t3 acts3 where l: "request_loop cfg w url rest t2 = (r, t3, acts3)"
      by (cases "request_loop cfg w url rest t2") auto
    with rest [of t2] show ?thesis by (auto simp: b Failure k)
  qed
qed

text \<open>
  C3 (as stated) fails: when the navigation raises and the rebuild of the session fails
  on its three passes, the exception of the last pass leaves \<open>_make_request\<close>.
\<close>

theorem C3_counterexample:
  "fst (make_request api_config
          (calm_world\<lparr>driver_get := (\<lambda>t. Some (WebDriverException ''net'')),
                      chrome_start := (\<lambda>t. Some (WebDriverException ''no chrome''))\<rparr>)
          ''https://www.truepeoplesearch.com/results?name=Ann'' 0)
     = Inl (WebDriverException ''no chrome'')"
  by (simp add: make_request_def api_config_def attempts_3 attempt_body_def uniform_def
      calm_world_def backoff_and_restart_def setup_driver_def)

text \<open>
  C3 (amended): \<open>_make_request\<close> returns the page source or \<open>None\<close>, whatever the
  navigation, the waits and the reads of the session do, provided every rebuild of the
  session after a failed attempt succeeds (and \<open>random()\<close> is not negative). An
  exception of \<open>_setup_driver\<close> in the handler is not caught.
\<close>

theorem C3_make_request_returns:
  assumes "\<forall>k. 0 \<le> random01 w k" and "\<forall>k. fst (setup_driver w k) = Inr ()"
  shows "\<exists>r. fst (make_request cfg w url t) = Inr r"
  unfolding make_request_def
  by (rule request_loop_returns [OF assms]) simp

theorem C3_make_request_returns_witness:
  "(\<forall>k. 0 \<le> random01 (calm_world\<lparr>driver_get := (\<lambda>t. Some TimeoutException)\<rparr>) k)
   \<and> (\<forall>k. fst (setup_driver (calm_world\<lparr>driver_get := (\<lambda>t. Some TimeoutException)\<rparr>) k) = Inr ())
   \<and> (\<exists>r. fst (make_request api_config (calm_world\<lparr>driver_get := (\<lambda>t. Some TimeoutException)\<rparr>) ''u'' 0) = Inr r)"
proof -
  let ?w = "calm_world\<lparr>driver_get := (\<lambda>t. Some TimeoutException)\<rparr>"
  have a: "\<forall>k. 0 \<le> random01 ?w k" by (simp add: calm_world_def)
  have b: "\<forall>k. fst (setup_driver ?w k) = Inr ()"
    by (simp add: setup_driver_def calm_world_def)
  from C3_make_request_returns [OF a b] a b show ?thesis by blast
qed

subsection \<open>A challenge that never clears\<close>

text \<open>From the start of any of its passes, the retry loop ends as the loop run from
  there does, after what the passes before have done.\<close>

lemma pass_start_request_loop:
  assumes "pass_start cfg w url n attempts t = Some (attempts', t', pre)"
  shows "request_loop cfg w url attempts t =
           (case request_loop cfg w url attempts' t' of (r, t2, acts) \<Rightarrow> (r, t2, pre @ acts))"
  using assms
proof (induction n arbitrary: attempts t pre)
  case 0
  then show ?case by (simp split: prod.splits)
next
  case (Suc n)
  show ?case
  proof (cases attempts)
    case Nil
    with Suc.prems show ?thesis by simp
  next
    case (Cons attempt rest)
    obtain b t1 acts where ab: "attempt_body cfg w url t = (b, t1, acts)"
      by (cases "attempt_body cfg w url t") auto
    show ?thesis
    proof (cases b)
      case (Return r)
      with Suc.prems Cons ab show ?thesis by simp
    next
      case PageTimeout
      with Suc.prems Cons ab obtain acts' where
        nl: "attempt \<noteq> max_retries cfg - 1"
        and ps: "pass_start cfg w url n rest t1 = Some (attempts', t', acts')"
        and d: "pre = acts @ acts'"
        by (auto split: if_splits option.splits)
      from Suc.IH [OF ps] show ?thesis
        by (simp add: Cons ab PageTimeout nl d split: prod.splits)
    next
      case (Failure e)
      obtain r2 t2 acts2 where br: "backoff_and_restart w attempt t1 = (r2, t2, acts2)"
        by (cases "backoff_and_restart w attempt t1") auto
      with Suc.prems Cons ab Failure obtain u acts3 where
        nl: "attempt \<noteq> max_retries cfg - 1"
        and r2: "r2 = Inr u"
        and ps: "pass_start cfg w url n rest t2 = Some (attempts', t', acts3)"
        and d: "pre = acts @ acts2 @ acts3"
        by (auto split: if_splits option.splits sum.splits)
      from Suc.IH [OF ps] show ?thesis
        by (simp add: Cons ab Failure nl br r2 d split: prod.splits)
    qed
  qed
qed

lemma url_is_challenge_tick: "t < snd (url_is_challenge w t)"
  by (simp add: url_is_challenge_def split: sum.splits)

text \<open>The test finds a challenge whenever every reading of the URL has \<open>challenge\<close> in
  it, and whenever every reading has \<open>captcha\<close> in it.\<close>

lemma url_is_challenge_urls:
  assumes "(\<forall>k>t0. \<exists>u. current_url w k = Inr u \<and> str_in ''challenge'' u)
           \<or> (\<forall>k>t0. \<exists>u. current_url w k = Inr u \<and> str_in ''captcha'' u)"
  shows "\<forall>k>t0. fst (url_is_challenge w k) = Inr True"
proof (intro allI impI)
  fix k
  assume k: "t0 < k"
  from assms show "fst (url_is_challenge w k) = Inr True"
  proof
    assume "\<forall>k>t0. \<exists>u. current_url w k = Inr u \<and> str_in ''challenge'' u"
    then obtain u where "current_url w k = Inr u" "str_in ''challenge'' u" using k by blast
    then show ?thesis by (simp add: url_is_challenge_def)
  next
    assume a: "\<forall>k>t0. \<exists>u. current_url w k = Inr u \<and> str_in ''captcha'' u"
    then obtain u where u: "current_url w k = Inr u" using k by blast
    from a obtain u' where u': "current_url w (Suc k) = Inr u'" "str_in ''captcha'' u'"
      using k by (meson less_Suc_eq)
    show ?thesis by (simp add: url_is_challenge_def u u')
  qed
qed

lemma url_is_challenge_stuck:
  assumes "\<forall>k>t0. fst (url_is_challenge w k) = Inr True" and "t0 < t"
  shows "\<exists>t'>t0. url_is_challenge w t = (Inr True, t')"
proof -
  obtain r t1 where a: "url_is_challenge w t = (r, t1)"
    by (cases "url_is_challenge w t") auto
  have "r = Inr True" using assms a by (metis fst_conv)
  moreover have "t < t1" using url_is_challenge_tick [of t w] a by simp
  ultimately show ?thesis using a assms(2) by simp
qed

lemma cf_poll_stuck:
  assumes "\<forall>k>t0. fst (url_is_challenge w k) = Inr True" and "t0 < t"
  shows "\<exists>t'>t0. cf_poll w n t = (Inr (), t', replicate n (Sleep 5))"
  using assms(2)
proof (induction n arbitrary: t)
  case 0
  then show ?case by simp
next
  case (Suc n)
  obtain t1 where a: "t0 < t1" "url_is_challenge w t = (Inr True, t1)"
    using url_is_challenge_stuck [OF assms(1) Suc.prems] by blast
  obtain t2 where b: "t0 < t2" "cf_poll w n t1 = (Inr (), t2, replicate n (Sleep 5))"
    using Suc.IH [OF a(1)] by blast
  show ?case using b by (simp add: a)
qed

lemma wait_and_challenge_stuck:
  assumes "\<forall>k>t. fst (url_is_challenge w k) = Inr True" and "wait_body w t = None"
  shows "\<exists>t'. wait_and_challenge w t = (Inr True, t', replicate 7 (Sleep 5))"
proof -
  obtain t1 where a: "t < t1" "url_is_challenge w (Suc t) = (Inr True, t1)"
    using url_is_challenge_stuck [OF assms(1), of "Suc t"] by auto
  obtain t2 where b: "t < t2" "cf_poll w 6 t1 = (Inr (), t2, replicate 6 (Sleep 5))"
    using cf_poll_stuck [OF assms(1) a(1)] by blast
  obtain t3 where c: "url_is_challenge w t2 = (Inr True, t3)"
    using url_is_challenge_stuck [OF assms(1) b(1)] by blast
  have "replicate 7 (Sleep 5) = Sleep 5 # replicate 6 (Sleep 5)"
    by (simp add: numeral_eq_Suc)
  then show ?thesis
    by (simp add: wait_and_challenge_def assms(2) a b c)
qed

text \<open>
  C4 (as stated) fails in its middle part: the challenge that does not clear ends the
  whole fetch. With three attempts allowed, the fetch returns \<open>None\<close> after one
  navigation; no further attempt runs and the session is not rebuilt.
\<close>

theorem C4_counterexample:
  "max_retries api_config = 3
   \<and> make_request api_config
        (calm_world\<lparr>current_url := (\<lambda>t. Inr ''https://www.truepeoplesearch.com/challenge'')\<rparr>)
        ''https://www.truepeoplesearch.com/results?name=Ann'' 0
     = (Inr None, 11,
        [Sleep 2, Navigate ''https://www.truepeoplesearch.com/results?name=Ann'',
         Sleep 5, Sleep 5, Sleep 5, Sleep 5, Sleep 5, Sleep 5, Sleep 5])"
  by (simp add: make_request_def api_config_def attempts_3 attempt_body_def uniform_def
      calm_world_def wait_and_challenge_def url_is_challenge_def numeral_eq_Suc)

text \<open>
  C4 (amended): on every pass of the retry loop of \<open>_make_request\<close>, whichever its
  number, whose navigation and wait for \<open>body\<close> succeed and on which every test of
  the URL finds a challenge (or captcha) URL, the engine sleeps 5 seconds, polls 6 times
  with 5 seconds after each poll, and then \<open>_make_request\<close> returns \<open>None\<close>: the
  whole fetch ends there, with the navigation of that pass as its last one; no later
  pass runs and the session is not rebuilt. The sleeps of the challenge handling add up
  to 35 seconds. (\<open>pre\<close> is what the passes before have done.)
\<close>

theorem C4_challenge_timeout:
  assumes "pass_start cfg w url n (map int [0..<nat (max_retries cfg)]) t0 = Some (attempt # rest, t, pre)"
    and "0 \<le> uniform (min_delay cfg) (max_delay cfg) (random01 w t)"
    and "driver_get w (Suc t) = None" and "wait_body w (Suc (Suc t)) = None"
    and "\<forall>k>Suc (Suc t). fst (url_is_challenge w k) = Inr True"
  shows "fst (make_request cfg w url t0) = Inr None
         \<and> snd (snd (make_request cfg w url t0))
           = pre @ [Sleep (uniform (min_delay cfg) (max_delay cfg) (random01 w t)), Navigate url]
               @ replicate 7 (Sleep 5)
         \<and> sleep_total (replicate 7 (Sleep 5)) = 35"
proof -
  let ?acts = "[Sleep (uniform (min_delay cfg) (max_delay cfg) (random01 w t)), Navigate url]
                 @ replicate 7 (Sleep 5)"
  obtain t1 where a: "wait_and_challenge w (Suc (Suc t)) = (Inr True, t1, replicate 7 (Sleep 5))"
    using wait_and_challenge_stuck [OF assms(5,4)] by blast
  have b: "attempt_body cfg w url t = (Return None, t1, ?acts)"
    using assms(2,3) by (simp add: attempt_body_def Let_def a)
  have c: "request_loop cfg w url (attempt # rest) t = (Inr None, t1, ?acts)"
    by (simp add: b)
  have "make_request cfg w url t0 = (Inr None, t1, pre @ ?acts)"
    unfolding make_request_def pass_start_request_loop [OF assms(1)] c by simp
  moreover have "sleep_total (replicate 7 (Sleep 5)) = 35"
    by (simp add: sleep_total_def numeral_eq_Suc)
  ultimately show ?thesis by simp
qed

theorem C4_challenge_timeout_witness:
  "pass_start scraper_config
      (calm_world\<lparr>wait_body := (\<lambda>t. if t = 2 then Some TimeoutException else None),
                  current_url := (\<lambda>t. Inr ''https://x.test/captcha'')\<rparr>) ''p'' 1
      (map int [0..<nat (max_retries scraper_config)]) 0
     = Some ([1, 2], 3, [Sleep 5, Navigate ''p''])
   \<and> (\<forall>k. fst (url_is_challenge
                 (calm_world\<lparr>wait_body := (\<lambda>t. if t = 2 then Some TimeoutException else None),
                             current_url := (\<lambda>t. Inr ''https://x.test/captcha'')\<rparr>) k) = Inr True)
   \<and> fst (make_request scraper_config
            (calm_world\<lparr>wait_body := (\<lambda>t. if t = 2 then Some TimeoutException else None),
                        current_url := (\<lambda>t. Inr ''https://x.test/captcha'')\<rparr>) ''p'' 0) = Inr None
   \<and> snd (snd (make_request scraper_config
            (calm_world\<lparr>wait_body := (\<lambda>t. if t = 2 then Some TimeoutException else None),
                        current_url := (\<lambda>t. Inr ''https://x.test/captcha'')\<rparr>) ''p'' 0))
     = [Sleep 5, Navigate ''p'', Sleep 5, Navigate ''p''] @ replicate 7 (Sleep 5)"
proof -
  let ?w = "calm_world\<lparr>wait_body := (\<lambda>t. if t = 2 then Some TimeoutException else None),
                       current_url := (\<lambda>t. Inr ''https://x.test/captcha'')\<rparr>"
  have a: "pass_start scraper_config ?w ''p'' 1 (map int [0..<nat (max_retries scraper_config)]) 0
           = Some ([1, 2], 3, [Sleep 5, Navigate ''p''])"
    by (simp add: scraper_config_def attempts_3 attempt_body_def uniform_def calm_world_def
        wait_and_challenge_def)
  have b: "0 \<le> uniform (min_delay scraper_config) (max_delay scraper_config) (random01 ?w 3)"
    by (simp add: scraper_config_def uniform_def calm_world_def)
  have c: "driver_get ?w (Suc 3) = None" by (simp add: calm_world_def)
  have d: "wait_body ?w (Suc (Suc 3)) = None" by simp
  have e: "\<forall>k. fst (url_is_challenge ?w k) = Inr True"
    by (simp add: url_is_challenge_def)
  have g: "uniform (min_delay scraper_config) (max_delay scraper_config) (random01 ?w 3) = 5"
    by (simp add: scraper_config_def uniform_def calm_world_def)
  from C4_challenge_timeout [OF a b c d] e g a show ?thesis
    by simp
qed

subsection \<open>Pacing\<close>

lemma pacing_ok_no_nav: "no_nav acts \<Longrightarrow> pacing_ok lo hi prev acts"
  by (induction acts arbitrary: prev) (auto simp: no_nav_def)

lemma pacing_ok_append:
  "pacing_ok lo hi prev (xs @ ys) \<longleftrightarrow>
     pacing_ok lo hi prev xs \<and> pacing_ok lo hi (if xs = [] then prev else Some (last xs)) ys"
  by (induction xs arbitrary: prev) auto

lemma no_nav_append [simp]: "no_nav (xs @ ys) \<longleftrightarrow> no_nav xs \<and> no_nav ys"
  by (simp add: no_nav_def)

lemma no_nav_setup_attempts: "no_nav (snd (snd (setup_attempts w attempts t)))"
proof (induction attempts arbitrary: t)
  case Nil
  then show ?case by (simp add: no_nav_def)
next
  case (Cons attempt rest)
  obtain r t' acts where s: "setup_attempts w rest (Suc t) = (r, t', acts)"
    by (cases "setup_attempts w rest (Suc t)") auto
  have "no_nav acts" using Cons [of "Suc t"] by (simp add: s)
  then show ?case by (auto simp: no_nav_def s split: option.splits)
qed

lemma no_nav_setup_driver: "no_nav (snd (snd (setup_driver w t)))"
  using no_nav_setup_attempts [of w "[0, 1, 2]" "Suc t"]
  by (auto simp: setup_driver_def no_nav_def split: option.splits)

lemma no_nav_backoff: "no_nav (snd (snd (backoff_and_restart w attempt t)))"
  using no_nav_setup_driver [of w "Suc t"]
  by (auto simp: backoff_and_restart_def Let_def no_nav_def split: prod.splits)

lemma no_nav_cf_poll: "no_nav (snd (snd (cf_poll w n t)))"
proof (induction n arbitrary: t)
  case 0
  then show ?case by (simp add: no_nav_def)
next
  case (Suc n)
  obtain c t1 where u: "url_is_challenge w t = (c, t1)"
    by (cases "url_is_challenge w t") auto
  obtain r t2 acts where s: "cf_poll w n t1 = (r, t2, acts)"
    by (cases "cf_poll w n t1") auto
  have "no_nav acts" using Suc [of t1] by (simp add: s)
  then show ?case by (auto simp: no_nav_def u s split: sum.splits bool.splits)
qed

lemma no_nav_wait_and_challenge: "no_nav (snd (snd (wait_and_challenge w t)))"
proof -
  have "\<And>r t2 acts. cf_poll w 6 t' = (r, t2, acts) \<Longrightarrow> no_nav acts" for t'
    using no_nav_cf_poll [of w 6 t'] by simp
  then show ?thesis
    by (auto simp: wait_and_challenge_def no_nav_def split: option.splits prod.splits sum.splits bool.splits)
qed

lemma pacing_attempt_body:
  assumes "min_delay cfg \<le> max_delay cfg" and "0 \<le> random01 w t" and "random01 w t \<le> 1"
  shows "pacing_ok (min_delay cfg) (max_delay cfg) prev (snd (snd (attempt_body cfg w url t)))"
proof -
  let ?d = "uniform (min_delay cfg) (max_delay cfg) (random01 w t)"
  have lo: "min_delay cfg \<le> ?d"
    using assms by (simp add: uniform_def)
  have "(max_delay cfg - min_delay cfg) * random01 w t \<le> (max_delay cfg - min_delay cfg) * 1"
    using assms by (intro mult_left_mono) auto
  then have hi: "?d \<le> max_delay cfg"
    by (simp add: uniform_def)
  have head: "pacing_ok (min_delay cfg) (max_delay cfg) prev ([Sleep ?d, Navigate url] @ acts)"
    if "no_nav acts" for acts
    using lo hi that by (simp add: pacing_ok_no_nav)
  obtain r t1 acts where wc: "wait_and_challenge w (Suc (Suc t)) = (r, t1, acts)"
    by (cases "wait_and_challenge w (Suc (Suc t))") auto
  have nn: "no_nav acts"
    using no_nav_wait_and_challenge [of w "Suc (Suc t)"] by (simp add: wc)
  have nn2: "no_nav (acts @ [Sleep 2])"
    using nn by (simp add: no_nav_def)
  show ?thesis
    using head [OF nn] head [OF nn2] head [of "[]"]
    by (auto simp: attempt_body_def Let_def wc no_nav_def split: option.splits sum.splits bool.splits)
qed

lemma pacing_request_loop:
  assumes "min_delay cfg \<le> max_delay cfg" and "\<forall>k. 0 \<le> random01 w k \<and> random01 w k \<le> 1"
  shows "pacing_ok (min_delay cfg) (max_delay cfg) prev (snd (snd (request_loop cfg w url attempts t)))"
proof (induction attempts arbitrary: t prev)
  case Nil
  then show ?case by simp
next
  case (Cons attempt rest)
  obtain e t1 acts where b: "attempt_body cfg w url t = (e, t1, acts)"
    by (cases "attempt_body cfg w url t") auto
  have pa: "pacing_ok (min_delay cfg) (max_delay cfg) prev acts"
    using pacing_attempt_body [of cfg w t prev url] assms by (simp add: b)
  have rest: "\<And>p t'. pacing_ok (min_delay cfg) (max_delay cfg) p (snd (snd (request_loop cfg w url rest t')))"
    using Cons by simp
  show ?case
  proof (cases e)
    case (Return r)
    then show ?thesis using pa by (simp add: b)
  next
    case PageTimeout
    obtain r t2 acts' where l: "request_loop cfg w url rest t1 = (r, t2, acts')"
      by (cases "request_loop cfg w url rest t1") auto
    have "pacing_ok (min_delay cfg) (max_delay cfg) p acts'" for p
      using rest [of p t1] by (simp add: l)
    then show ?thesis using pa by (simp add: b PageTimeout l pacing_ok_append)
  next
    case (Failure x)
    obtain k t2 acts2 where bk: "backoff_and_restart w attempt t1 = (k, t2, acts2)"
      by (cases "backoff_and_restart w attempt t1") auto
    have n2: "no_nav acts2"
      using no_nav_backoff [of w attempt t1] by (simp add: bk)
    obtain r t3 acts3 where l: "request_loop cfg w url rest t2 = (r, t3, acts3)"
      by (cases "request_loop cfg w url rest t2") auto
    have p3: "pacing_ok (min_delay cfg) (max_delay cfg) p acts3" for p
      using rest [of p t2] by (simp add: l)
    have p2: "pacing_ok (min_delay cfg) (max_delay cfg) p acts2" for p
      using n2 by (rule pacing_ok_no_nav)
    show ?thesis
      using pa p2 p3 by (cases k) (simp_all add: b Failure bk l pacing_ok_append)
  qed
qed

text \<open>
  C7 (as stated) fails for the form submission: the click on the submit control comes
  right after a fixed sleep of one second, which is not a draw from
  \<open>[min_delay, max_delay] = [5, 10]\<close>.
\<close>

theorem C7_counterexample:
  "snd (snd (search_by_address scraper_config calm_world ann 0))
     = [Sleep 5, Navigate ''https://www.truepeoplesearch.com'', Sleep 2, Sleep 2, Sleep 1, Click]
   \<and> \<not> pacing_ok (min_delay scraper_config) (max_delay scraper_config) None
         (snd (snd (search_by_address scraper_config calm_world ann 0)))"
  by (simp add: search_by_address_def make_request_def scraper_config_def attempts_3
      attempt_body_def uniform_def calm_world_def wait_and_challenge_def url_is_challenge_def
      BASE_URL_def form_interaction_def ann_def numeral_eq_Suc)

text \<open>
  C7 (amended): in \<open>_make_request\<close>, every navigation (\<open>driver.get\<close>) of every attempt,
  the first one, a retry after an exception and a retry after a page-load timeout, comes
  right after a sleep of a length drawn from \<open>[min_delay, max_delay]\<close>. (The click that
  submits the search form is outside \<open>_make_request\<close> and follows fixed sleeps.)
\<close>

theorem C7_navigation_paced:
  assumes "min_delay cfg \<le> max_delay cfg" and "\<forall>k. 0 \<le> random01 w k \<and> random01 w k \<le> 1"
  shows "pacing_ok (min_delay cfg) (max_delay cfg) prev (snd (snd (make_request cfg w url t)))"
  unfolding make_request_def by (rule pacing_request_loop [OF assms])

theorem C7_navigation_paced_witness:
  "min_delay api_config \<le> max_delay api_config
   \<and> (\<forall>k. 0 \<le> random01 (calm_world\<lparr>wait_body := (\<lambda>t. Some TimeoutException)\<rparr>) k
          \<and> random01 (calm_world\<lparr>wait_body := (\<lambda>t. Some TimeoutException)\<rparr>) k \<le> 1)
   \<and> snd (snd (make_request api_config (calm_world\<lparr>wait_body := (\<lambda>t. Some TimeoutException)\<rparr>) ''u'' 0))
       = [Sleep 2, Navigate ''u'', Sleep 2, Navigate ''u'', Sleep 2, Navigate ''u'']
   \<and> pacing_ok (min_delay api_config) (max_delay api_config) None
       (snd (snd (make_request api_config (calm_world\<lparr>wait_body := (\<lambda>t. Some TimeoutException)\<rparr>) ''u'' 0)))"
proof -
  let ?w = "calm_world\<lparr>wait_body := (\<lambda>t. Some TimeoutException)\<rparr>"
  have a: "min_delay api_config \<le> max_delay api_config" by (simp add: api_config_def)
  have b: "\<forall>k. 0 \<le> random01 ?w k \<and> random01 ?w k \<le> 1" by (simp add: calm_world_def)
  have c: "snd (snd (make_request api_config ?w ''u'' 0))
       = [Sleep 2, Navigate ''u'', Sleep 2, Navigate ''u'', Sleep 2, Navigate ''u'']"
    by (simp add: make_request_def api_config_def attempts_3 attempt_body_def uniform_def
        calm_world_def wait_and_challenge_def)
  from C7_navigation_paced [OF a b, of None "''u''" 0] a b c show ?thesis by simp
qed

section \<open>Properties of the Extraction Engine\<close>

subsection \<open>Deduplication\<close>

lemma set_dedup_first [simp]: "set (dedup_first xs) = set xs"
  by (induction xs) auto

lemma distinct_dedup_first [simp]: "distinct (dedup_first xs)"
  by (induction xs) auto

lemma dedup_first_append:
  "dedup_first (xs @ ys) = dedup_first xs @ filter (\<lambda>y. y \<notin> set xs) (dedup_first ys)"
proof (induction xs)
  case Nil
  then show ?case by simp
next
  case (Cons x xs)
  have "filter (\<lambda>y. y \<noteq> x) (filter (\<lambda>y. y \<notin> set xs) zs) = filter (\<lambda>y. y \<notin> set (x # xs)) zs" for zs
    by (induction zs) auto
  with Cons show ?case by simp
qed

lemma add_emails_eq:
  "add_emails acc xs = acc @ filter (\<lambda>x. x \<notin> set acc) (dedup_first xs)"
  unfolding add_emails_def
proof (induction xs arbitrary: acc)
  case Nil
  then show ?case by simp
next
  case (Cons x xs)
  show ?case
  proof (cases "x \<in> set acc")
    case True
    have "filter (\<lambda>y. y \<notin> set acc) (filter (\<lambda>y. y \<noteq> x) zs) = filter (\<lambda>y. y \<notin> set acc) zs" for zs
      using True by (induction zs) auto
    with True Cons [of acc] show ?thesis by simp
  next
    case False
    have "filter (\<lambda>y. y \<notin> set (acc @ [x])) zs = filter (\<lambda>y. y \<notin> set acc) (filter (\<lambda>y. y \<noteq> x) zs)" for zs
      by (induction zs) auto
    with False Cons [of "acc @ [x]"] show ?thesis by simp
  qed
qed

lemma add_emails_append: "add_emails (add_emails acc xs) ys = add_emails acc (xs @ ys)"
  by (simp add: add_emails_def)

subsection \<open>What a match of the pattern contains\<close>

lemma try_counts_Some:
  "try_counts f lo k = Some r \<Longrightarrow> \<exists>j\<le>k. lo \<le> j \<and> f j = Some r"
proof (induction k)
  case 0
  then show ?case by (auto split: if_splits)
next
  case (Suc k)
  show ?case
  proof (cases "f (Suc k)")
    case None
    with Suc obtain j where "j \<le> k" "lo \<le> j" "f j = Some r"
      by (auto split: if_splits)
    then show ?thesis by (intro exI [of _ j]) simp
  next
    case (Some r')
    with Suc.prems have "\<not> Suc k < lo" "r' = r"
      by (auto split: if_splits)
    with Some show ?thesis by (intro exI [of _ "Suc k"]) simp
  qed
qed

lemma rx_match_Cons_Some:
  assumes "rx_match ((cls, lo, hi) # its) s = Some n"
  shows "\<exists>j m. lo \<le> j \<and> j \<le> length (takeWhile cls s) \<and> rx_match its (drop j s) = Some m"
proof -
  let ?n = "length (takeWhile cls s)"
  let ?m = "case hi of None \<Rightarrow> ?n | Some h \<Rightarrow> min h ?n"
  have le: "?m \<le> ?n" by (simp split: option.splits)
  obtain j where j: "j \<le> ?m" "lo \<le> j"
      "map_option (\<lambda>r. j + r) (rx_match its (drop j s)) = Some n"
    using assms try_counts_Some [of "\<lambda>k. map_option (\<lambda>r. k + r) (rx_match its (drop k s))" lo ?m n]
    by (auto simp: Let_def)
  obtain m where m: "rx_match its (drop j s) = Some m"
    using j(3) by (cases "rx_match its (drop j s)") auto
  have "j \<le> ?n" using j(1) le by (rule order_trans)
  with j(2) m show ?thesis by blast
qed

lemma rx_match_literal:
  assumes "rx_match (pre @ lit c # post) s = Some n"
  shows "c \<in> set s"
  using assms
proof (induction pre arbitrary: s n)
  case Nil
  then obtain j where j: "1 \<le> j" "j \<le> length (takeWhile (\<lambda>x. x = c) s)"
    using rx_match_Cons_Some [of "\<lambda>x. x = c" 1 "Some 1" post s n] by (auto simp: lit_def)
  then have "takeWhile (\<lambda>x. x = c) s \<noteq> []" by auto
  then show ?case by (cases s) (auto split: if_splits)
next
  case (Cons it pre)
  obtain cls lo hi where it: "it = (cls, lo, hi)" by (cases it) auto
  obtain j m where "rx_match (pre @ lit c # post) (drop j s) = Some m"
    using rx_match_Cons_Some [of cls lo hi "pre @ lit c # post" s n] Cons.prems by (auto simp: it)
  then have "c \<in> set (drop j s)" by (rule Cons.IH)
  then show ?case by (rule in_set_dropD)
qed

lemma rx_findall_literal:
  assumes "\<And>s' n. rx_match p s' = Some n \<Longrightarrow> c \<in> set s'" and "rx_findall p s \<noteq> []"
  shows "c \<in> set s"
  using assms(2)
proof (induction s)
  case Nil
  then show ?case by simp
next
  case (Cons a s)
  show ?case
  proof (cases "rx_match p (a # s)")
    case None
    with Cons show ?thesis by simp
  next
    case (Some n)
    then show ?thesis by (rule assms(1))
  qed
qed

lemma email_match_has_at_dot:
  assumes "rx_findall EMAIL_RE s \<noteq> []"
  shows "has_at_dot s"
proof -
  have a: "c \<in> set s'" if "rx_match EMAIL_RE s' = Some n" and "c = CHR ''@'' \<or> c = CHR ''.''" for s' n c
  proof -
    have "EMAIL_RE = [(email_char, 1, None)] @ lit CHR ''@'' # [(email_char, 1, None), lit CHR ''.'', (is_alpha, 2, None)]"
      and "EMAIL_RE = [(email_char, 1, None), lit CHR ''@'', (email_char, 1, None)] @ lit CHR ''.'' # [(is_alpha, 2, None)]"
      by (simp_all add: EMAIL_RE_def)
    then show ?thesis using that rx_match_literal by metis
  qed
  have "CHR ''@'' \<in> set s" "CHR ''.'' \<in> set s"
    using rx_findall_literal [of EMAIL_RE _ s] a assms by blast+
  then show ?thesis by (simp add: has_at_dot_def str_in_single)
qed

subsection \<open>Emails\<close>

lemma api_scan_emails_eq:
  "api_scan_emails texts acc =
     add_emails acc (concat (map (rx_findall EMAIL_RE) (filter has_at_dot texts)))"
proof (induction texts arbitrary: acc)
  case Nil
  then show ?case by (simp add: add_emails_def)
next
  case (Cons a texts)
  then show ?case by (simp add: has_at_dot_def add_emails_append)
qed

lemma api_scan_emails_all:
  "api_scan_emails texts acc = add_emails acc (concat (map (rx_findall EMAIL_RE) texts))"
proof -
  have "concat (map (rx_findall EMAIL_RE) (filter has_at_dot texts)) = concat (map (rx_findall EMAIL_RE) texts)"
  proof (induction texts)
    case Nil
    then show ?case by simp
  next
    case (Cons a texts)
    then show ?case using email_match_has_at_dot [of a] by (cases "has_at_dot a") auto
  qed
  then show ?thesis by (simp add: api_scan_emails_eq)
qed

lemma scan_emails_eq:
  "scan_emails texts acc = add_emails acc (map strip (filter has_at_dot texts))"
proof (induction texts arbitrary: acc)
  case Nil
  then show ?case by (simp add: add_emails_def)
next
  case (Cons a texts)
  have "add_emails (if strip a \<in> set acc then acc else acc @ [strip a]) ys = add_emails acc (strip a # ys)" for ys
    by (simp add: add_emails_def)
  with Cons show ?case by (simp add: has_at_dot_def Let_def)
qed

lemma findall_example: "rx_findall EMAIL_RE ''a@x.com b@y.com a@x.com'' = [''a@x.com'', ''b@y.com'', ''a@x.com'']"
  by code_simp

lemma findall_a: "rx_findall EMAIL_RE ''a@x.com'' = [''a@x.com'']"
  by code_simp

lemma findall_b: "rx_findall EMAIL_RE ''b@y.com'' = [''b@y.com'']"
  by code_simp

text \<open>
  C8 (as stated) fails on the batch path: a block whose text holds the three addresses
  is collected whole, as one entry.
\<close>

theorem C8_counterexample:
  "scan_emails [''a@x.com b@y.com a@x.com''] [] = [''a@x.com b@y.com a@x.com'']
   \<and> scan_emails [''a@x.com b@y.com a@x.com''] [] \<noteq> [''a@x.com'', ''b@y.com'']"
  by (simp add: strip_def is_space_def)

text \<open>
  C8 (amended): on the request-response path, email extraction collects, from every
  block, the successive leftmost matches of \<^verbatim>\<open>[\w\.-]+@[\w\.-]+\.[a-zA-Z]{2,}\<close>, and
  keeps the first occurrence of each, in order of first occurrence. On the batch path
  the stripped text of each block that contains \<open>@\<close> and \<open>.\<close> is collected whole,
  deduplicated in the same way. Blocks \<open>a@x.com\<close>, \<open>b@y.com\<close>,
  \<open>a@x.com\<close> give \<open>[a@x.com, b@y.com]\<close> on both paths, and so does one block holding
  the three on the request-response path.
\<close>

theorem C8_email_extraction:
  "api_scan_emails texts [] = dedup_first (concat (map (rx_findall EMAIL_RE) texts))
   \<and> scan_emails texts [] = dedup_first (map strip (filter has_at_dot texts))
   \<and> api_scan_emails [''a@x.com'', ''b@y.com'', ''a@x.com''] [] = [''a@x.com'', ''b@y.com'']
   \<and> scan_emails [''a@x.com'', ''b@y.com'', ''a@x.com''] [] = [''a@x.com'', ''b@y.com'']
   \<and> api_scan_emails [''a@x.com b@y.com a@x.com''] [] = [''a@x.com'', ''b@y.com'']"
proof -
  have 1: "api_scan_emails texts [] = dedup_first (concat (map (rx_findall EMAIL_RE) texts))"
    by (simp add: api_scan_emails_all add_emails_eq)
  have 2: "scan_emails texts [] = dedup_first (map strip (filter has_at_dot texts))"
    by (simp add: scan_emails_eq add_emails_eq)
  have g: "has_at_dot ''a@x.com''" "has_at_dot ''b@y.com''" "has_at_dot ''a@x.com b@y.com a@x.com''"
    by (simp_all add: has_at_dot_def)
  have 3: "api_scan_emails [''a@x.com'', ''b@y.com'', ''a@x.com''] [] = [''a@x.com'', ''b@y.com'']"
    unfolding api_scan_emails_eq by (simp add: g findall_a findall_b add_emails_def del: rx_findall.simps)
  have 4: "scan_emails [''a@x.com'', ''b@y.com'', ''a@x.com''] [] = [''a@x.com'', ''b@y.com'']"
    by (simp add: strip_def is_space_def)
  have 5: "api_scan_emails [''a@x.com b@y.com a@x.com''] [] = [''a@x.com'', ''b@y.com'']"
    unfolding api_scan_emails_eq by (simp add: g findall_example add_emails_def del: rx_findall.simps)
  from 1 2 3 4 5 show ?thesis by blast
qed

subsection \<open>Phones\<close>

lemma telephones_Cons:
  "telephones (s # ss) = (case telephone s of None \<Rightarrow> telephones ss | Some p \<Rightarrow> p # telephones ss)"
  by (simp add: telephones_def List.map_filter_simps split: option.splits)

lemma telephones_append: "telephones (xs @ ys) = telephones xs @ telephones ys"
  by (induction xs) (auto simp: telephones_Cons split: option.splits, simp add: telephones_def List.map_filter_simps)

lemma number_phone_data_of [simp]: "number (phone_data_of p info) = p"
  by (simp add: phone_data_of_def Let_def split: option.splits)

lemma api_scan_phones_numbers:
  "map number (api_scan_phones ss acc) = map number acc @ telephones ss"
proof (induction ss arbitrary: acc)
  case Nil
  then show ?case by (simp add: telephones_def List.map_filter_simps)
next
  case (Cons s ss)
  then show ?case
    by (auto simp: telephones_Cons telephone_def split: option.splits)
qed

text \<open>Sections without a flag only append: the list grows by the new numbers, and
  \<open>phone\<close> is the last number seen.\<close>

lemma scan_phones_unflagged:
  assumes "\<forall>s \<in> set ss. \<not> flagged s"
  shows "scan_phones (ss @ rest) phone nums =
         scan_phones rest (if telephones ss = [] then phone else Some (last (telephones ss)))
           (add_emails nums (telephones ss))"
  using assms
proof (induction ss arbitrary: phone nums)
  case Nil
  then show ?case by (simp add: telephones_def List.map_filter_simps add_emails_def)
next
  case (Cons s ss)
  have nf: "\<not> flagged s" and rest: "\<forall>s \<in> set ss. \<not> flagged s"
    using Cons.prems by auto
  have step: "add_emails (if p \<in> set nums then nums else nums @ [p]) ys = add_emails nums (p # ys)" for p ys
    by (simp add: add_emails_def)
  show ?case
  proof (cases "phone_link s")
    case None
    then show ?thesis
      using Cons.IH [OF rest] by (simp add: telephones_Cons telephone_def)
  next
    case (Some span)
    show ?thesis
    proof (cases span)
      case None
      with Some nf show ?thesis
        using Cons.IH [OF rest]
        by (auto simp: telephones_Cons telephone_def flagged_def split: option.splits)
    next
      case (Some p)
      with \<open>phone_link s = Some span\<close> nf show ?thesis
        using Cons.IH [OF rest, of "Some p" "if p \<in> set nums then nums else nums @ [p]"]
        by (auto simp: telephones_Cons telephone_def flagged_def step split: option.splits)
    qed
  qed
qed

lemma scan_phones_promote:
  assumes "\<forall>x \<in> set pre. \<not> flagged x" and "\<forall>x \<in> set post. \<not> flagged x"
    and "phone_link s = Some (Some p)" and "flagged s"
  shows "scan_phones (pre @ s # post) None [] =
         Inr (p # filter (\<lambda>x. x \<noteq> p) (dedup_first (telephones (pre @ s # post))))"
proof -
  let ?a = "dedup_first (telephones pre)"
  let ?n = "if p \<in> set ?a then ?a else ?a @ [p]"
  obtain info where info: "phone_info s = Some info" "str_in ''Possible Primary Phone'' info"
    using assms(4) by (auto simp: flagged_def split: option.splits)
  have d: "distinct ?n" by simp
  have pin: "p \<in> set ?n" by simp
  have r1: "remove1 p ?n = filter (\<lambda>x. x \<noteq> p) ?a"
  proof -
    have "remove1 p ?n = removeAll p ?n" using d by (rule distinct_remove1_removeAll)
    also have "\<dots> = filter (\<lambda>x. x \<noteq> p) ?n" by (simp add: removeAll_filter_not_eq) (metis)
    also have "\<dots> = filter (\<lambda>x. x \<noteq> p) ?a" by simp
    finally show ?thesis .
  qed
  have "scan_phones (pre @ s # post) None [] =
        scan_phones (s # post) (if telephones pre = [] then None else Some (last (telephones pre))) ?a"
    using scan_phones_unflagged [OF assms(1), of "s # post" None "[]"]
    by (simp add: add_emails_eq)
  also have "\<dots> = scan_phones post (Some p) (p # remove1 p ?n)"
    using pin by (simp add: assms(3) info Let_def del: set_dedup_first)
  also have "\<dots> = scan_phones [] (if telephones post = [] then Some p else Some (last (telephones post)))
                     (add_emails (p # remove1 p ?n) (telephones post))"
    using scan_phones_unflagged [OF assms(2), of "[]" "Some p" "p # remove1 p ?n"] by simp
  also have "\<dots> = Inr (add_emails (p # remove1 p ?n) (telephones post))" by simp
  also have "add_emails (p # remove1 p ?n) (telephones post) =
             p # filter (\<lambda>x. x \<noteq> p) (dedup_first (telephones (pre @ s # post)))"
  proof -
    have s1: "set (p # remove1 p ?n) = insert p (set (telephones pre))"
      by (auto simp: r1)
    have f1: "filter (\<lambda>x. x \<notin> insert p (set (telephones pre))) zs
              = filter (\<lambda>x. x \<noteq> p) (filter (\<lambda>y. y \<notin> set (telephones pre)) (filter (\<lambda>y. y \<noteq> p) zs))" for zs
      by (induction zs) auto
    have t: "telephones (pre @ s # post) = telephones pre @ p # telephones post"
      by (simp add: telephones_append telephones_Cons telephone_def assms(3))
    have "add_emails (p # remove1 p ?n) (telephones post)
          = (p # remove1 p ?n) @ filter (\<lambda>x. x \<notin> insert p (set (telephones pre))) (dedup_first (telephones post))"
      unfolding add_emails_eq s1 ..
    also have "\<dots> = p # filter (\<lambda>x. x \<noteq> p) ?a
          @ filter (\<lambda>x. x \<noteq> p) (filter (\<lambda>y. y \<notin> set (telephones pre)) (filter (\<lambda>y. y \<noteq> p) (dedup_first (telephones post))))"
      unfolding r1 f1 by simp
    also have "\<dots> = p # filter (\<lambda>x. x \<noteq> p) (dedup_first (telephones pre @ p # telephones post))"
      unfolding dedup_first_append by simp
    finally show ?thesis unfolding t .
  qed
  finally show ?thesis .
qed

text \<open>
  C6 (as stated) fails on the request-response path, which never reorders the phones:
  a flagged second block stays second. (The batch path puts it first.)
\<close>

theorem C6_counterexample:
  "map number (api_scan_phones
       [\<lparr>phone_link = Some (Some ''555-0100''), phone_info = None\<rparr>,
        \<lparr>phone_link = Some (Some ''555-0199''), phone_info = Some ''Possible Primary Phone''\<rparr>] [])
     = [''555-0100'', ''555-0199'']
   \<and> scan_phones
       [\<lparr>phone_link = Some (Some ''555-0100''), phone_info = None\<rparr>,
        \<lparr>phone_link = Some (Some ''555-0199''), phone_info = Some ''Possible Primary Phone''\<rparr>] None []
     = Inr [''555-0199'', ''555-0100'']"
  by (simp add: api_scan_phones_numbers telephones_def telephone_def List.map_filter_simps)

text \<open>
  C6 (amended): on the batch path, when exactly one phone block is flagged as the
  possible primary phone and that block has a telephone element, profile extraction
  returns the phone list with that phone first and the other phones after it in the
  order of their first occurrence. On the request-response path the phones are returned
  in scan order, flagged or not.
\<close>

theorem C6_primary_phone_first:
  "((\<forall>x \<in> set pre. \<not> flagged x) \<and> (\<forall>x \<in> set post. \<not> flagged x)
      \<and> phone_link s = Some (Some p) \<and> flagged s \<longrightarrow>
    scan_phones (pre @ s # post) None [] =
      Inr (p # filter (\<lambda>x. x \<noteq> p) (dedup_first (telephones (pre @ s # post)))))
   \<and> map number (api_scan_phones ss []) = telephones ss"
  using scan_phones_promote [of pre post s p] api_scan_phones_numbers [of ss "[]"]
  by simp

theorem C6_primary_phone_first_witness:
  "\<not> flagged \<lparr>phone_link = Some (Some ''555-0100''), phone_info = Some ''Landline''\<rparr>
   \<and> \<not> flagged \<lparr>phone_link = Some (Some ''555-0142''), phone_info = None\<rparr>
   \<and> flagged \<lparr>phone_link = Some (Some ''555-0199''), phone_info = Some ''Possible Primary Phone''\<rparr>
   \<and> scan_phones
       [\<lparr>phone_link = Some (Some ''555-0100''), phone_info = Some ''Landline''\<rparr>,
        \<lparr>phone_link = Some (Some ''555-0199''), phone_info = Some ''Possible Primary Phone''\<rparr>,
        \<lparr>phone_link = Some (Some ''555-0142''), phone_info = None\<rparr>] None []
     = Inr [''555-0199'', ''555-0100'', ''555-0142'']"
proof -
  let ?a = "\<lparr>phone_link = Some (Some ''555-0100''), phone_info = Some ''Landline''\<rparr>"
  let ?b = "\<lparr>phone_link = Some (Some ''555-0199''), phone_info = Some ''Possible Primary Phone''\<rparr>"
  let ?c = "\<lparr>phone_link = Some (Some ''555-0142''), phone_info = None\<rparr>"
  have fa: "\<not> flagged ?a" by (simp add: flagged_def)
  have fc: "\<not> flagged ?c" by (simp add: flagged_def)
  have fb: "flagged ?b" by (simp add: flagged_def)
  have t: "telephones ([?a] @ ?b # [?c]) = [''555-0100'', ''555-0199'', ''555-0142'']"
    by (simp add: telephones_def telephone_def List.map_filter_simps)
  from C6_primary_phone_first [of "[?a]" "[?c]" ?b "''555-0199''" "[]"] fa fb fc
  have "scan_phones ([?a] @ ?b # [?c]) None [] =
        Inr (''555-0199'' # filter (\<lambda>x. x \<noteq> ''555-0199'') (dedup_first (telephones ([?a] @ ?b # [?c]))))"
    by simp
  then have "scan_phones [?a, ?b, ?c] None [] = Inr [''555-0199'', ''555-0100'', ''555-0142'']"
    unfolding t by simp
  with fa fb fc show ?thesis by blast
qed

section \<open>Properties of the request-response path\<close>

subsection \<open>Dispatch of address and phone queries\<close>

lemma missing_methods:
  "''search_by_address'' \<notin> set TruePeopleSearchAPI_attrs"
  "''search_by_phone'' \<notin> set TruePeopleSearchAPI_attrs"
  by (simp_all add: TruePeopleSearchAPI_attrs_def)

lemma run_queries_missing:
  assumes "meth \<notin> set TruePeopleSearchAPI_attrs"
  shows "\<exists>e. fst (run_queries cfg w meth mr (q # qs) inst t) = Inl e"
proof -
  obtain r t1 a1 where e: "ensure_instance w inst t = (r, t1, a1)"
    by (cases "ensure_instance w inst t") auto
  show ?thesis
    by (cases r) (simp_all add: e call_method_def assms)
qed

lemma run_blocks_missing:
  assumes "(Some (q # qs), meth, key) \<in> set blocks" and "meth \<notin> set TruePeopleSearchAPI_attrs"
  shows "\<exists>e. fst (run_blocks cfg w mr blocks acc inst t) = Inl e"
  using assms(1)
proof (induction blocks arbitrary: acc inst t)
  case Nil
  then show ?case by simp
next
  case (Cons b blocks)
  obtain queries m k where b: "b = (queries, m, k)"
    by (cases b) auto
  show ?case
  proof (cases queries)
    case None
    with Cons b show ?thesis by auto
  next
    case (Some list)
    show ?thesis
    proof (cases list)
      case Nil
      with Cons b Some show ?thesis by auto
    next
      case l: (Cons q' qs')
      obtain r i t1 a1 where rq: "run_queries cfg w m mr (q' # qs') inst t = (r, i, t1, a1)"
        by (cases "run_queries cfg w m mr (q' # qs') inst t") auto
      have unfold: "run_blocks cfg w mr (b # blocks) acc inst t =
            (case r of
               Inl e \<Rightarrow> (Inl e, i, t1, a1)
             | Inr rs \<Rightarrow>
                 (case run_blocks cfg w mr blocks (acc @ [(k, rs)]) i t1 of
                    (r', i', t2, a2) \<Rightarrow> (r', i', t2, a1 @ a2)))"
        unfolding b Some l run_blocks.simps option.case list.case rq
        by (cases r) simp_all
      show ?thesis
      proof (cases r)
        case (Inl e)
        then show ?thesis unfolding unfold by simp
      next
        case (Inr rs)
        have "b \<noteq> (Some (q # qs), meth, key)"
        proof
          assume "b = (Some (q # qs), meth, key)"
          then have "m = meth" "q' # qs' = q # qs" using b Some l by auto
          then show False
            using run_queries_missing [OF assms(2), of cfg w mr q qs inst t] rq Inr by auto
        qed
        then have "(Some (q # qs), meth, key) \<in> set blocks"
          using Cons.prems by auto
        then obtain e where "fst (run_blocks cfg w mr blocks (acc @ [(k, rs)]) i t1) = Inl e"
          using Cons.IH by blast
        then show ?thesis
          unfolding unfold Inr by (auto split: prod.splits)
      qed
    qed
  qed
qed

text \<open>
  C1: \<open>search_by_address\<close> and \<open>search_by_phone\<close> are not attributes of the class, and
  a request with a non-empty list of address queries or of phone queries is answered by
  the error response of the handler (status 500), never by records.
\<close>

theorem C1_address_and_phone_queries_fail:
  "''search_by_address'' \<notin> set TruePeopleSearchAPI_attrs
   \<and> ''search_by_phone'' \<notin> set TruePeopleSearchAPI_attrs
   \<and> ((\<exists>q qs. q_street_citystatezip d = Some (q # qs)) \<or> (\<exists>q qs. q_phone_number d = Some (q # qs))
        \<longrightarrow> (\<exists>msg. fst (search cfg w (Some d) inst t) = Json_error msg 500))"
proof -
  let ?blocks = "[(q_name d, ''search_by_name'', ''name_results''),
                  (q_street_citystatezip d, ''search_by_address'', ''address_results''),
                  (q_phone_number d, ''search_by_phone'', ''phone_results'')]"
  let ?mr = "case q_max_results d of None \<Rightarrow> 1 | Some n \<Rightarrow> n"
  have "\<exists>msg. fst (search cfg w (Some d) inst t) = Json_error msg 500"
    if h: "(\<exists>q qs. q_street_citystatezip d = Some (q # qs)) \<or> (\<exists>q qs. q_phone_number d = Some (q # qs))"
  proof -
    have "\<exists>e. fst (run_blocks cfg w ?mr ?blocks [] inst t) = Inl e"
    proof -
      from h consider (a) q qs where "q_street_citystatezip d = Some (q # qs)"
        | (p) q qs where "q_phone_number d = Some (q # qs)" by blast
      then show ?thesis
      proof cases
        case a
        then have "(Some (q # qs), ''search_by_address'', ''address_results'') \<in> set ?blocks" by simp
        then show ?thesis using run_blocks_missing missing_methods(1) by blast
      next
        case p
        then have "(Some (q # qs), ''search_by_phone'', ''phone_results'') \<in> set ?blocks" by simp
        then show ?thesis using run_blocks_missing missing_methods(2) by blast
      qed
    qed
    then obtain e i t1 a1 where rb: "run_blocks cfg w ?mr ?blocks [] inst t = (Inl e, i, t1, a1)"
      by (cases "run_blocks cfg w ?mr ?blocks [] inst t") auto
    have ne: "\<not> (q_name d = None \<and> q_street_citystatezip d = None \<and> q_phone_number d = None \<and> q_max_results d = None)"
      using h by auto
    show ?thesis
      using ne rb by (auto simp: search_def)
  qed
  with missing_methods show ?thesis by blast
qed

theorem C1_address_and_phone_queries_fail_witness:
  "q_street_citystatezip \<lparr>q_name = None, q_street_citystatezip = Some [''1 Main St; Troy, NY''],
                          q_phone_number = None, q_max_results = None\<rparr> = Some [''1 Main St; Troy, NY'']
   \<and> fst (search api_config calm_world
            (Some \<lparr>q_name = None, q_street_citystatezip = Some [''1 Main St; Troy, NY''],
                   q_phone_number = None, q_max_results = None\<rparr>) True 0)
     = Json_error (quoted ''TruePeopleSearchAPI'' @ '' object has no attribute '' @ quoted ''search_by_address'') 500"
proof -
  let ?d = "\<lparr>q_name = None, q_street_citystatezip = Some [''1 Main St; Troy, NY''],
             q_phone_number = None, q_max_results = None\<rparr>"
  have a: "q_street_citystatezip ?d = Some [''1 Main St; Troy, NY'']" by simp
  from C1_address_and_phone_queries_fail [of ?d api_config calm_world True 0] a
  obtain msg where m: "fst (search api_config calm_world (Some ?d) True 0) = Json_error msg 500"
    by auto
  have "fst (search api_config calm_world (Some ?d) True 0)
        = Json_error (quoted ''TruePeopleSearchAPI'' @ '' object has no attribute '' @ quoted ''search_by_address'') 500"
    by (simp add: search_def ensure_instance_def call_method_def TruePeopleSearchAPI_attrs_def)
  with a m show ?thesis by simp
qed

subsection \<open>Error records of \<open>search_by_name\<close>\<close>

lemma sr_absent_error_result [simp]: "sr_absent (error_result opt given msg)"
  by (simp add: sr_absent_def error_result_def)

lemma sr_error_success_result [simp]: "sr_error (success_result opt given info link) = None"
  by (simp add: success_result_def)

lemma process_cards_no_error:
  assumes "\<forall>r \<in> set results. sr_error r = None"
    and "fst (process_cards cfg w opt given cards results t) = Inr rs"
  shows "\<forall>r \<in> set rs. sr_error r = None"
  using assms
proof (induction cards arbitrary: results t)
  case Nil
  then show ?case by simp
next
  case (Cons c cards)
  show ?case
  proof (cases "detail_link c")
    case None
    with Cons show ?thesis by simp
  next
    case (Some l)
    show ?thesis
    proof (cases l)
      case None
      with Cons Some show ?thesis by simp
    next
      case (Some href)
      obtain r t1 a1 where e: "api_extract_profile_info cfg w (BASE_URL @ href) t = (r, t1, a1)"
        by (cases "api_extract_profile_info cfg w (BASE_URL @ href) t") auto
      show ?thesis
      proof (cases r)
        case (Inl x)
        with Cons.prems \<open>detail_link c = Some l\<close> Some e show ?thesis by simp
      next
        case (Inr info)
        show ?thesis
        proof (cases info)
          case None
          obtain r2 t2 a2 where p: "process_cards cfg w opt given cards results t1 = (r2, t2, a2)"
            by (cases "process_cards cfg w opt given cards results t1") auto
          have "r2 = Inr rs"
            using Cons.prems(2) \<open>detail_link c = Some l\<close> Some e Inr None p by simp
          then show ?thesis
            using Cons.IH [of results t1] Cons.prems(1) p by simp
        next
          case (Some fields)
          let ?res = "results @ [success_result opt given fields (BASE_URL @ href)]"
          obtain r2 t2 a2 where p: "process_cards cfg w opt given cards ?res t1 = (r2, t2, a2)"
            by (cases "process_cards cfg w opt given cards ?res t1") auto
          have "r2 = Inr rs"
            using Cons.prems(2) \<open>detail_link c = Some l\<close> \<open>l = Some href\<close> e Inr Some p by simp
          moreover have "\<forall>r \<in> set ?res. sr_error r = None"
            using Cons.prems(1) by simp
          ultimately show ?thesis
            using Cons.IH [of ?res t1] p by simp
        qed
      qed
    qed
  qed
qed

lemma search_by_name_error_records:
  assumes "fst (search_by_name cfg w name city_state max_results t) = Inr rs"
    and "r \<in> set rs" and "sr_error r \<noteq> None"
  shows "sr_absent r"
proof -
  obtain n c where pq: "parse_name_query name city_state = (n, c)"
    by (cases "parse_name_query name city_state") auto
  let ?url = "name_search_url (quote_plus w) name city_state"
  obtain r1 t1 a1 where mr: "make_request cfg w ?url t = (r1, t1, a1)"
    by (cases "make_request cfg w ?url t") auto
  show ?thesis
  proof (cases r1)
    case (Inl e)
    with assms(1) show ?thesis by (simp add: search_by_name_def Let_def pq mr)
  next
    case (Inr html)
    show ?thesis
    proof (cases "\<not> truthy html \<or> cards_of w (the html) = []")
      case True
      then have "rs = [error_result ''Name Search'' (input_given_of n c) ''Failed to retrieve search results'']
                 \<or> rs = [error_result ''Name Search'' (input_given_of n c) ''No results found'']"
        using assms(1) by (auto simp: search_by_name_def Let_def pq mr Inr split: if_splits)
      with assms(2) show ?thesis by auto
    next
      case False
      let ?cards = "slice_to max_results (cards_of w (the html))"
      obtain r2 t2 a2 where pc: "process_cards cfg w ''Name Search'' (input_given_of n c) ?cards [] t1 = (r2, t2, a2)"
        by (cases "process_cards cfg w ''Name Search'' (input_given_of n c) ?cards [] t1") auto
      show ?thesis
      proof (cases r2)
        case (Inl e)
        with assms(1) False show ?thesis by (simp add: search_by_name_def Let_def pq mr \<open>r1 = Inr html\<close> pc)
      next
        case (Inr results)
        have ne: "\<forall>x \<in> set results. sr_error x = None"
          using process_cards_no_error [of "[]" cfg w "''Name Search''" "input_given_of n c" ?cards t1 results]
          by (simp add: pc Inr)
        show ?thesis
        proof (cases "results = []")
          case True
          then have "rs = [error_result ''Name Search'' (input_given_of n c) ''No valid results could be processed'']"
            using assms(1) False by (simp add: search_by_name_def Let_def pq mr \<open>r1 = Inr html\<close> pc Inr)
          with assms(2) show ?thesis by auto
        next
          case nonempty: False
          then have "rs = results"
            using assms(1) False by (simp add: search_by_name_def Let_def pq mr \<open>r1 = Inr html\<close> pc Inr)
          with ne assms(2,3) show ?thesis by auto
        qed
      qed
    qed
  qed
qed

section \<open>Properties of the batch path\<close>

subsection \<open>Only \<open>save_results\<close> writes files\<close>

lemma saves_append [simp]: "saves (xs @ ys) = saves xs @ saves ys"
  by (induction xs rule: saves.induct) auto

lemma saves_setup_attempts: "setup_attempts w attempts t = (r, t', acts) \<Longrightarrow> saves acts = []"
proof (induction attempts arbitrary: t r t' acts)
  case Nil
  then show ?case by simp
next
  case (Cons attempt rest)
  then show ?case
    by (auto split: option.splits if_splits prod.splits)
qed

lemma saves_setup_driver: "setup_driver w t = (r, t', acts) \<Longrightarrow> saves acts = []"
  by (auto simp: setup_driver_def split: option.splits dest: saves_setup_attempts)

lemma saves_backoff: "backoff_and_restart w attempt t = (r, t', acts) \<Longrightarrow> saves acts = []"
  by (auto simp: backoff_and_restart_def Let_def split: if_splits prod.splits dest: saves_setup_driver)

lemma saves_cf_poll: "cf_poll w n t = (r, t', acts) \<Longrightarrow> saves acts = []"
proof (induction n arbitrary: t r t' acts)
  case 0
  then show ?case by simp
next
  case (Suc n)
  then show ?case
    by (auto split: prod.splits sum.splits bool.splits)
qed

lemma saves_wait_and_challenge: "wait_and_challenge w t = (r, t', acts) \<Longrightarrow> saves acts = []"
  by (auto simp: wait_and_challenge_def split: option.splits prod.splits sum.splits bool.splits
      dest: saves_cf_poll)

lemma saves_attempt_body: "attempt_body cfg w url t = (r, t', acts) \<Longrightarrow> saves acts = []"
  by (auto simp: attempt_body_def Let_def
      split: if_splits option.splits prod.splits sum.splits bool.splits
      dest: saves_wait_and_challenge)

lemma saves_request_loop: "request_loop cfg w url attempts t = (r, t', acts) \<Longrightarrow> saves acts = []"
proof (induction attempts arbitrary: t r t' acts)
  case Nil
  then show ?case by simp
next
  case (Cons attempt rest)
  obtain e t1 a1 where b: "attempt_body cfg w url t = (e, t1, a1)"
    by (cases "attempt_body cfg w url t") auto
  have s1: "saves a1 = []" using b by (rule saves_attempt_body)
  show ?case
  proof (cases e)
    case (Return x)
    with Cons.prems b s1 show ?thesis by auto
  next
    case PageTimeout
    with Cons b s1 show ?thesis
      by (auto split: if_splits prod.splits)
  next
    case (Failure x)
    with Cons b s1 show ?thesis
      by (auto split: if_splits prod.splits sum.splits dest: saves_backoff)
  qed
qed

lemma saves_make_request: "make_request cfg w url t = (r, t', acts) \<Longrightarrow> saves acts = []"
  unfolding make_request_def by (rule saves_request_loop)

lemma saves_fill_loop: "fill_loop w v n t = (t', acts) \<Longrightarrow> saves acts = []"
proof (induction n arbitrary: t t' acts)
  case 0
  then show ?case by simp
next
  case (Suc n)
  then show ?case
    by (auto split: sum.splits if_splits prod.splits option.splits)
qed

lemma saves_click_loop: "click_loop w n t = (t', acts) \<Longrightarrow> saves acts = []"
proof (induction n arbitrary: t t' acts)
  case 0
  then show ?case by simp
next
  case (Suc n)
  then show ?case
    by (auto split: option.splits prod.splits)
qed

lemma saves_results_loop: "results_loop w retries t = (r, t', acts) \<Longrightarrow> saves acts = []"
proof (induction retries arbitrary: t r t' acts)
  case Nil
  then show ?case by simp
next
  case (Cons retry rest)
  then show ?case
    by (auto split: option.splits if_splits prod.splits)
qed

lemma saves_form_interaction:
  assumes "form_interaction w ow t = (r, t', acts)"
  shows "saves acts = []"
proof -
  let ?v = "Some (fmt (mailing_city ow) @ CHR '','' # CHR '' '' # fmt (mailing_state ow))"
  obtain t1 a1 where f1: "fill_loop w (mailing_address ow) 3 (t + 3) = (t1, a1)"
    by (cases "fill_loop w (mailing_address ow) 3 (t + 3)") auto
  obtain t2 a2 where f2: "fill_loop w ?v 3 t1 = (t2, a2)"
    by (cases "fill_loop w ?v 3 t1") auto
  obtain t3 a3 where c: "click_loop w 3 t2 = (t3, a3)"
    by (cases "click_loop w 3 t2") auto
  obtain r4 t4 a4 where rl: "results_loop w [0, 1, 2] t3 = (r4, t4, a4)"
    by (cases "results_loop w [0, 1, 2] t3") auto
  have s: "saves a1 = []" "saves a2 = []" "saves a3 = []" "saves a4 = []"
    using f1 f2 c rl saves_fill_loop saves_click_loop saves_results_loop by blast+
  show ?thesis
    using assms s
    by (auto simp: form_interaction_def f1 f2 c rl Let_def
        split: if_splits sum.splits bool.splits simp del: results_loop.simps)
qed

lemma saves_search_by_address: "search_by_address cfg w ow t = (r, t', acts) \<Longrightarrow> saves acts = []"
  by (auto simp: search_by_address_def
      split: prod.splits sum.splits if_splits option.splits
      dest: saves_make_request saves_form_interaction)

lemma saves_extract_profile_info: "extract_profile_info cfg w url t = (r, t', acts) \<Longrightarrow> saves acts = []"
  by (auto simp: extract_profile_info_def
      split: prod.splits sum.splits if_splits
      dest: saves_make_request)

subsection \<open>One owner\<close>

lemma extract_profile_info_address:
  "extract_profile_info cfg w url t = (Inr info, t', acts) \<Longrightarrow> get_current_address info = None"
  by (auto simp: extract_profile_info_def extract_profile_fields_def
      split: prod.splits sum.splits if_splits)

text \<open>The six ways through the loop body.\<close>

lemma process_owner_cases:
  obtains
    (search_raised) e t1 a1 where
      "process_owner cfg w out results ow t = (results @ [(ScrapingResult ow)\<lparr>error := Some (str_exn e)\<rparr>], t1, a1)"
      "saves a1 = []"
  | (not_found) t1 a1 where
      "process_owner cfg w out results ow t = (results @ [(ScrapingResult ow)\<lparr>error := Some ''Profile not found''\<rparr>], t1, a1)"
      "saves a1 = []"
  | (first) info t1 a1 where
      "results = []" "get_current_address info = None"
      "process_owner cfg w out results ow t =
         ([(ScrapingResult ow)\<lparr>current_address := None, phone_numbers := get_phone_numbers info,
                                emails := get_emails info\<rparr>], t1, a1)"
      "saves a1 = []"
  | (saved) info t1 a1 where
      "results \<noteq> []" "get_current_address info = None"
      "process_owner cfg w out results ow t =
         (results @ [(ScrapingResult ow)\<lparr>current_address := None, phone_numbers := get_phone_numbers info,
                                          emails := get_emails info\<rparr>], t1, a1)"
      "saves a1 = [(out @ ''.partial'', sort_key (\<lambda>r. row_index (r_owner r)) (map to_row results))]"
  | (save_raised) info e k t1 a1 where
      "results \<noteq> []" "write_excel w k = Some e"
      "process_owner cfg w out results ow t =
         (results @ [(ScrapingResult ow)\<lparr>current_address := None, phone_numbers := get_phone_numbers info,
                                          emails := get_emails info, error := Some (str_exn e)\<rparr>], t1, a1)"
      "saves a1 = []"
proof -
  obtain r1 t1 a1 where s: "search_by_address cfg w ow t = (r1, t1, a1)"
    by (cases "search_by_address cfg w ow t") auto
  have s1: "saves a1 = []" using s by (rule saves_search_by_address)
  show ?thesis
  proof (cases r1)
    case (Inl e)
    then show ?thesis
      using search_raised [of e t1 a1] s s1 by (simp add: process_owner_def Let_def)
  next
    case (Inr profile_url)
    show ?thesis
    proof (cases "truthy profile_url")
      case False
      then show ?thesis
        using not_found [of t1 a1] s s1 Inr by (simp add: process_owner_def Let_def)
    next
      case True
      obtain r2 t2 a2 where x: "extract_profile_info cfg w (the profile_url) t1 = (r2, t2, a2)"
        by (cases "extract_profile_info cfg w (the profile_url) t1") auto
      have s2: "saves a2 = []" using x by (rule saves_extract_profile_info)
      show ?thesis
      proof (cases r2)
        case (Inl e)
        then show ?thesis
          using search_raised [of e t2 "a1 @ a2"] s s1 x s2 Inr True
          by (simp add: process_owner_def Let_def)
      next
        case info: (Inr info)
        have addr: "get_current_address info = None"
          using x info extract_profile_info_address by blast
        show ?thesis
        proof (cases "results = []")
          case True
          then show ?thesis
            using first [of info t2 "a1 @ a2"] s s1 x s2 Inr \<open>truthy profile_url\<close> info addr
            by (simp add: process_owner_def Let_def)
        next
          case False
          show ?thesis
          proof (cases "write_excel w t2")
            case None
            then show ?thesis
              using saved [of info "Suc t2"
                  "a1 @ a2 @ [Save (out @ ''.partial'') (sort_key (\<lambda>r. row_index (r_owner r)) (map to_row results))]"]
                s s1 x s2 Inr \<open>truthy profile_url\<close> info addr False
              by (simp add: process_owner_def Let_def save_results_def)
          next
            case (Some e)
            then show ?thesis
              using save_raised [of t2 e info "Suc t2" "a1 @ a2"]
                s s1 x s2 Inr \<open>truthy profile_url\<close> info addr False
              by (simp add: process_owner_def Let_def save_results_def)
          qed
        qed
      qed
    qed
  qed
qed

subsection \<open>Evaluation in the calm world\<close>

lemma calm_make_request:
  "make_request scraper_config (calm_world\<lparr>write_excel := f\<rparr>) url t
     = (Inr (Some ''page''), t + 6, [Sleep 5, Navigate url, Sleep 2])"
  by (simp add: make_request_def scraper_config_def attempts_3 attempt_body_def uniform_def
      calm_world_def wait_and_challenge_def url_is_challenge_def)

lemma calm_form_interaction:
  assumes "mailing_address ow = Some ''1 Main St''"
  shows "form_interaction (calm_world\<lparr>write_excel := f\<rparr>) ow t
     = (Some ''page'', t + 12, [Sleep 2, Sleep 1, Click])"
  by (simp add: form_interaction_def calm_world_def assms numeral_eq_Suc)

lemma ann_matches: "name_matches ann ''Ann Lee''"
  by code_simp

lemma bob_matches: "name_matches bob ''Ann Lee''"
  by code_simp

lemma calm_search_by_address:
  assumes "mailing_address ow = Some ''1 Main St''" and "name_matches ow ''Ann Lee''"
  shows "search_by_address scraper_config (calm_world\<lparr>write_excel := f\<rparr>) ow t
     = (Inr (Some ''https://www.truepeoplesearch.com/find/ann''), t + 18,
        [Sleep 5, Navigate ''https://www.truepeoplesearch.com'', Sleep 2, Sleep 2, Sleep 1, Click])"
proof -
  have c: "cards_of calm_world ''page''
           = [\<lparr>name_div = Some ''Ann Lee'', detail_link = Some (Some ''/find/ann'')\<rparr>]"
    by (simp add: calm_world_def)
  show ?thesis
    unfolding search_by_address_def calm_make_request calm_form_interaction [OF assms(1)]
    by (simp add: c assms(2) BASE_URL_def)
qed

lemma calm_extract_profile_info:
  "extract_profile_info scraper_config (calm_world\<lparr>write_excel := f\<rparr>) url t
     = (Inr (Info None [''555-0100''] []), t + 6, [Sleep 5, Navigate url, Sleep 2])"
proof -
  have p: "profile_of calm_world ''page''
           = \<lparr>name_header = Some ''Ann Lee, 40'', postal_address = None,
              phone_sections = [\<lparr>phone_link = Some (Some ''555-0100''), phone_info = None\<rparr>],
              email_divs = []\<rparr>"
    by (simp add: calm_world_def)
  show ?thesis
    unfolding extract_profile_info_def calm_make_request
    by (simp add: p extract_profile_fields_def)
qed

lemma calm_world_write: "calm_world\<lparr>write_excel := (\<lambda>t. None)\<rparr> = calm_world"
  by (simp add: calm_world_def)

lemma calm_process_owner_first:
  assumes "mailing_address ow = Some ''1 Main St''" and "name_matches ow ''Ann Lee''"
  shows "process_owner scraper_config (calm_world\<lparr>write_excel := f\<rparr>) out [] ow t
     = ([\<lparr>owner_of = ow, current_address = None, phone_numbers = [''555-0100''], emails = [],
          error = None\<rparr>], t + 24,
        [Sleep 5, Navigate ''https://www.truepeoplesearch.com'', Sleep 2, Sleep 2, Sleep 1, Click,
         Sleep 5, Navigate ''https://www.truepeoplesearch.com/find/ann'', Sleep 2])"
  unfolding process_owner_def calm_search_by_address [OF assms] Let_def
  by (simp add: calm_extract_profile_info ScrapingResult_def)

lemma calm_process_owner_next:
  assumes "mailing_address ow = Some ''1 Main St''" and "name_matches ow ''Ann Lee''"
    and "results \<noteq> []"
  shows "process_owner scraper_config calm_world out results ow t
     = (results @ [\<lparr>owner_of = ow, current_address = None, phone_numbers = [''555-0100''],
                    emails = [], error = None\<rparr>], t + 25,
        [Sleep 5, Navigate ''https://www.truepeoplesearch.com'', Sleep 2, Sleep 2, Sleep 1, Click,
         Sleep 5, Navigate ''https://www.truepeoplesearch.com/find/ann'', Sleep 2,
         Save (out @ ''.partial'') (sort_key (\<lambda>r. row_index (r_owner r)) (map to_row results))])"
proof -
  have w: "write_excel calm_world k = None" for k
    by (simp add: calm_world_def)
  show ?thesis
    using calm_search_by_address [OF assms(1,2), of "\<lambda>t. None" t]
      calm_extract_profile_info [of "\<lambda>t. None"]
    unfolding calm_world_write process_owner_def Let_def
    by (simp add: assms(3) ScrapingResult_def save_results_def w)
qed

lemma calm_process_owner_save_fails:
  assumes "mailing_address ow = Some ''1 Main St''" and "name_matches ow ''Ann Lee''"
    and "results \<noteq> []"
  shows "fst (process_owner scraper_config (calm_world\<lparr>write_excel := (\<lambda>t. Some e)\<rparr>) out results ow t)
     = results @ [\<lparr>owner_of = ow, current_address = None, phone_numbers = [''555-0100''],
                   emails = [], error = Some (str_exn e)\<rparr>]"
  unfolding process_owner_def calm_search_by_address [OF assms(1,2)] Let_def
  by (simp add: calm_extract_profile_info assms(3) ScrapingResult_def save_results_def)

subsection \<open>Error records\<close>

text \<open>
  Where an error record has no data: every record returned by \<open>search_by_name\<close> whose
  \<open>error\<close> is set has every optional identity, address and contact field absent, and
  so has every record the batch loop appends, as long as the write of the partial
  checkpoint does not raise.
\<close>

lemma error_records_without_data:
  "(\<forall>rs r. fst (search_by_name cfg w name city_state max_results t) = Inr rs \<and> r \<in> set rs
            \<and> sr_error r \<noteq> None \<longrightarrow> sr_absent r)
   \<and> ((\<forall>k. write_excel w' k = None)
        \<and> error (last (fst (process_owner cfg' w' out results ow t'))) \<noteq> None
      \<longrightarrow> sc_absent (last (fst (process_owner cfg' w' out results ow t'))))"
proof -
  have api: "\<forall>rs r. fst (search_by_name cfg w name city_state max_results t) = Inr rs \<and> r \<in> set rs
            \<and> sr_error r \<noteq> None \<longrightarrow> sr_absent r"
    using search_by_name_error_records by blast
  have batch: "sc_absent (last (fst (process_owner cfg' w' out results ow t')))"
    if "\<forall>k. write_excel w' k = None"
      and "error (last (fst (process_owner cfg' w' out results ow t'))) \<noteq> None"
    using that
    by (cases rule: process_owner_cases [of cfg' w' out results ow t'])
      (simp_all add: sc_absent_def ScrapingResult_def)
  from api batch show ?thesis by blast
qed

text \<open>
  C2 fails on the batch path. The write of the partial checkpoint stands inside the
  \<open>try\<close> of the owner, after the profile fields have been assigned; when it raises, the
  handler sets \<open>error\<close> on a record that already holds the extracted phones, and the
  record is appended as it is. Evaluated on two owners whose search and extraction both
  succeed, with a writer that rejects the checkpoint (as a writer that chooses its format
  by the file extension does with \<open>.partial\<close>): the first record is clean, nothing
  being written after it; the second one has both its \<open>error\<close> and its phone number.
\<close>

theorem C2_error_record_keeps_data:
  "fst (process_batch scraper_config
          (calm_world\<lparr>write_excel := (\<lambda>t. Some (ValueError (''No engine for filetype: '' @ quoted ''partial'')))\<rparr>)
          ''out.xlsx'' [ann, bob] [] 0)
     = [\<lparr>owner_of = ann, current_address = None, phone_numbers = [''555-0100''], emails = [],
          error = None\<rparr>,
        \<lparr>owner_of = bob, current_address = None, phone_numbers = [''555-0100''], emails = [],
          error = Some (''No engine for filetype: '' @ quoted ''partial'')\<rparr>]
   \<and> error (last (fst (process_batch scraper_config
          (calm_world\<lparr>write_excel := (\<lambda>t. Some (ValueError (''No engine for filetype: '' @ quoted ''partial'')))\<rparr>)
          ''out.xlsx'' [ann, bob] [] 0))) \<noteq> None
   \<and> \<not> sc_absent (last (fst (process_batch scraper_config
          (calm_world\<lparr>write_excel := (\<lambda>t. Some (ValueError (''No engine for filetype: '' @ quoted ''partial'')))\<rparr>)
          ''out.xlsx'' [ann, bob] [] 0)))"
proof -
  let ?e = "ValueError (''No engine for filetype: '' @ quoted ''partial'')"
  let ?w = "calm_world\<lparr>write_excel := (\<lambda>t. Some ?e)\<rparr>"
  let ?a = "\<lparr>owner_of = ann, current_address = None, phone_numbers = [''555-0100''], emails = [],
             error = None\<rparr>"
  let ?b = "\<lparr>owner_of = bob, current_address = None, phone_numbers = [''555-0100''], emails = [],
             error = Some (''No engine for filetype: '' @ quoted ''partial'')\<rparr>"
  have ma: "mailing_address ann = Some ''1 Main St''" and mb: "mailing_address bob = Some ''1 Main St''"
    by (simp_all add: ann_def bob_def)
  have a: "process_owner scraper_config ?w ''out.xlsx'' [] ann 0
     = ([?a], 24,
        [Sleep 5, Navigate ''https://www.truepeoplesearch.com'', Sleep 2, Sleep 2, Sleep 1, Click,
         Sleep 5, Navigate ''https://www.truepeoplesearch.com/find/ann'', Sleep 2])"
    using calm_process_owner_first [OF ma ann_matches, of "\<lambda>t. Some ?e" "''out.xlsx''" 0]
    by simp
  obtain r t1 a1 where p: "process_owner scraper_config ?w ''out.xlsx'' [?a] bob 24 = (r, t1, a1)"
    by (cases "process_owner scraper_config ?w ''out.xlsx'' [?a] bob 24") auto
  have "fst (process_owner scraper_config ?w ''out.xlsx'' [?a] bob 24) = [?a, ?b]"
    using calm_process_owner_save_fails [OF mb bob_matches, of "[?a]" ?e "''out.xlsx''" 24]
    by simp
  then have r: "r = [?a, ?b]" unfolding p by simp
  have "fst (process_batch scraper_config ?w ''out.xlsx'' [ann, bob] [] 0) = [?a, ?b]"
    unfolding process_batch.simps a using p [unfolded r] by simp
  then show ?thesis by (simp add: sc_absent_def)
qed

subsection \<open>The partial checkpoint\<close>

lemma calm_process_batch:
  "process_batch scraper_config calm_world ''out.xlsx'' [ann, bob] [] t
     = ([\<lparr>owner_of = ann, current_address = None, phone_numbers = [''555-0100''], emails = [],
           error = None\<rparr>,
         \<lparr>owner_of = bob, current_address = None, phone_numbers = [''555-0100''], emails = [],
           error = None\<rparr>],
        t + 49,
        [Sleep 5, Navigate ''https://www.truepeoplesearch.com'', Sleep 2, Sleep 2, Sleep 1, Click,
         Sleep 5, Navigate ''https://www.truepeoplesearch.com/find/ann'', Sleep 2,
         Sleep 5, Navigate ''https://www.truepeoplesearch.com'', Sleep 2, Sleep 2, Sleep 1, Click,
         Sleep 5, Navigate ''https://www.truepeoplesearch.com/find/ann'', Sleep 2,
         Save ''out.xlsx.partial''
           [\<lparr>r_owner = ann, r_current_address = None, r_phone_numbers = ''555-0100'',
             r_emails = [], r_error = None\<rparr>]])"
proof -
  have ma: "mailing_address ann = Some ''1 Main St''" and mb: "mailing_address bob = Some ''1 Main St''"
    by (simp_all add: ann_def bob_def)
  have a: "process_owner scraper_config calm_world ''out.xlsx'' [] ann t
     = ([\<lparr>owner_of = ann, current_address = None, phone_numbers = [''555-0100''], emails = [],
          error = None\<rparr>], t + 24,
        [Sleep 5, Navigate ''https://www.truepeoplesearch.com'', Sleep 2, Sleep 2, Sleep 1, Click,
         Sleep 5, Navigate ''https://www.truepeoplesearch.com/find/ann'', Sleep 2])"
    using calm_process_owner_first [OF ma ann_matches, of "\<lambda>t. None" "''out.xlsx''" t]
    by (simp add: calm_world_write)
  show ?thesis
    unfolding process_batch.simps a
    by (simp add: calm_process_owner_next [OF mb bob_matches] to_row_def)
qed

text \<open>
  C5, evaluated on two owners whose search and extraction both succeed: both records are
  in the result, without error, and the only partial checkpoint written holds the first
  record alone. After the first success nothing is written; after the second one the
  checkpoint lacks the record just completed.
\<close>

theorem C5_checkpoint_lags_behind:
  "fst (process_batch scraper_config calm_world ''out.xlsx'' [ann, bob] [] 0)
     = [\<lparr>owner_of = ann, current_address = None, phone_numbers = [''555-0100''], emails = [],
          error = None\<rparr>,
        \<lparr>owner_of = bob, current_address = None, phone_numbers = [''555-0100''], emails = [],
          error = None\<rparr>]
   \<and> saves (snd (snd (process_batch scraper_config calm_world ''out.xlsx'' [ann, bob] [] 0)))
     = [(''out.xlsx.partial'',
         [\<lparr>r_owner = ann, r_current_address = None, r_phone_numbers = ''555-0100'',
           r_emails = [], r_error = None\<rparr>])]"
  unfolding calm_process_batch by simp

subsection \<open>The current address\<close>

lemma to_row_address [simp]: "r_current_address (to_row r) = current_address r"
  by (simp add: to_row_def)

lemma process_owner_address:
  assumes "no_address results"
  shows "no_address (fst (process_owner cfg w out results ow t))
         \<and> rows_without_address (snd (snd (process_owner cfg w out results ow t)))"
  using assms
  by (cases rule: process_owner_cases [of cfg w out results ow t])
    (simp_all add: no_address_def rows_without_address_def ScrapingResult_def list_all_iff)

lemma rows_without_address_append [simp]:
  "rows_without_address (xs @ ys) \<longleftrightarrow> rows_without_address xs \<and> rows_without_address ys"
  by (simp add: rows_without_address_def)

lemma process_batch_address:
  assumes "no_address results"
  shows "no_address (fst (process_batch cfg w out batch results t))
         \<and> rows_without_address (snd (snd (process_batch cfg w out batch results t)))"
  using assms
proof (induction batch arbitrary: results t)
  case Nil
  then show ?case by (simp add: rows_without_address_def)
next
  case (Cons ow batch)
  obtain r1 t1 a1 where p: "process_owner cfg w out results ow t = (r1, t1, a1)"
    by (cases "process_owner cfg w out results ow t") auto
  have 1: "no_address r1" "rows_without_address a1"
    using process_owner_address [OF Cons.prems, of cfg w out ow t] by (simp_all add: p)
  obtain r2 t2 a2 where b: "process_batch cfg w out batch r1 t1 = (r2, t2, a2)"
    by (cases "process_batch cfg w out batch r1 t1") auto
  have 2: "no_address r2" "rows_without_address a2"
    using Cons.IH [OF 1(1), of t1] by (simp_all add: b)
  show ?case by (simp add: p b 1 2)
qed

lemma batch_loop_address:
  assumes "no_address results"
  shows "no_address (fst (snd (batch_loop cfg w out batch_size owners results t)))
         \<and> rows_without_address (snd (snd (snd (batch_loop cfg w out batch_size owners results t))))"
  using assms
proof (induction "length owners" arbitrary: owners results t rule: less_induct)
  case less
  show ?case
  proof (cases "owners = [] \<or> batch_size = 0")
    case True
    then show ?thesis
      using less.prems by (subst (1 2) batch_loop.simps) (simp add: rows_without_address_def)
  next
    case False
    obtain r1 t1 a1 where p: "process_batch cfg w out (take batch_size owners) results t = (r1, t1, a1)"
      by (cases "process_batch cfg w out (take batch_size owners) results t") auto
    have 1: "no_address r1" "rows_without_address a1"
      using process_batch_address [OF less.prems, of cfg w out "take batch_size owners" t]
      by (simp_all add: p)
    have sl: "rows_without_address (Sleep d # acts) = rows_without_address acts" for d acts
      by (simp add: rows_without_address_def)
    show ?thesis
    proof (cases "drop batch_size owners \<noteq> [] \<and> \<not> uniform 15 30 (random01 w t1) < 0")
      case True
      have lt: "length (drop batch_size owners) < length owners"
        using False by simp
      obtain e r2 t2 a2 where b:
        "batch_loop cfg w out batch_size (drop batch_size owners) r1 (Suc t1) = (e, r2, t2, a2)"
        by (cases "batch_loop cfg w out batch_size (drop batch_size owners) r1 (Suc t1)") auto
      have 2: "no_address r2" "rows_without_address a2"
        using less.hyps [OF lt 1(1), of "Suc t1"] by (simp_all add: b)
      show ?thesis
        using False True 1 2
        by (subst (1 2) batch_loop.simps) (simp add: p b Let_def sl)
    next
      case stop: False
      show ?thesis
        using False stop 1
        by (subst (1 2) batch_loop.simps) (auto simp: p Let_def)
    qed
  qed
qed

lemma save_results_address:
  assumes "no_address results" and "save_results w results path t = (r, t', acts)"
  shows "rows_without_address acts"
  using assms
  by (auto simp: save_results_def rows_without_address_def no_address_def list_all_iff
      split: option.splits)

lemma main_address: "rows_without_address (snd (snd (main w out batch_size t)))"
proof (cases "read_input w")
  case (Inl e)
  then show ?thesis by (simp add: main_def rows_without_address_def)
next
  case (Inr owners)
  obtain r1 t1 a1 where s: "setup_driver w t = (r1, t1, a1)"
    by (cases "setup_driver w t") auto
  have s1: "rows_without_address a1"
    using saves_setup_driver [OF s] by (simp add: rows_without_address_def)
  show ?thesis
  proof (cases r1)
    case (Inl e)
    then show ?thesis by (simp add: main_def \<open>read_input w = Inr owners\<close> s s1)
  next
    case ok: (Inr u)
    let ?loop = "if batch_size = 0 then (Some (ValueError ''range() arg 3 must not be zero''), [], t1, [])
                 else if batch_size < 0 then (None, [], t1, [])
                 else batch_loop scraper_config w out (nat batch_size) owners [] t1"
    obtain e results t2 a2 where l: "?loop = (e, results, t2, a2)"
      by (cases ?loop) auto
    have e0: "no_address []" by (simp add: no_address_def)
    have 2: "no_address results \<and> rows_without_address a2"
    proof (cases "batch_size \<le> 0")
      case True
      then show ?thesis
        using l by (auto simp: no_address_def rows_without_address_def split: if_splits)
    next
      case False
      then have "batch_loop scraper_config w out (nat batch_size) owners [] t1 = (e, results, t2, a2)"
        using l by (simp split: if_splits)
      then show ?thesis
        using batch_loop_address [OF e0, of scraper_config w out "nat batch_size" owners t1] by simp
    qed
    obtain r3 t3 a3 where sv: "save_results w results out t2 = (r3, t3, a3)"
      by (cases "save_results w results out t2") auto
    have 3: "rows_without_address a3"
      using save_results_address [OF _ sv] 2 by simp
    have q: "rows_without_address [Quit]" by (simp add: rows_without_address_def)
    show ?thesis
      unfolding main_def \<open>read_input w = Inr owners\<close> s ok sum.case prod.case l
      using s1 2 3 q
      by (cases r3) (simp_all add: sv)
  qed
qed

lemma calm_main:
  "saves (snd (snd (main calm_world ''out.xlsx'' 5 0)))
     = [(''out.xlsx.partial'',
         [\<lparr>r_owner = ann, r_current_address = None, r_phone_numbers = ''555-0100'',
           r_emails = [], r_error = None\<rparr>]),
        (''out.xlsx'',
         [\<lparr>r_owner = ann, r_current_address = None, r_phone_numbers = ''555-0100'',
           r_emails = [], r_error = None\<rparr>,
          \<lparr>r_owner = bob, r_current_address = None, r_phone_numbers = ''555-0100'',
           r_emails = [], r_error = None\<rparr>])]"
proof -
  have r: "read_input calm_world = Inr [ann, bob]" by (simp add: calm_world_def)
  have w: "write_excel calm_world k = None" for k by (simp add: calm_world_def)
  have b: "batch_loop scraper_config calm_world ''out.xlsx'' 5 [ann, bob] [] t
           = (None, fst (process_batch scraper_config calm_world ''out.xlsx'' [ann, bob] [] t),
              snd (process_batch scraper_config calm_world ''out.xlsx'' [ann, bob] [] t))" for t
    by (subst batch_loop.simps) (simp add: calm_process_batch)
  have i: "row_index ann = 0" "row_index bob = 1" by (simp_all add: ann_def bob_def)
  show ?thesis
    unfolding main_def r sum.case setup_driver_calm prod.case
    by (simp add: b calm_process_batch save_results_def w to_row_def i del: process_batch.simps)
qed

text \<open>
  C10: the dictionary returned by the batch-path profile extraction has no current
  address, the record appended for an owner has none, and no row of any file written by
  a run (partial checkpoint or final output) has one.
\<close>

theorem C10_current_address_always_empty:
  "(\<forall>info t' acts. extract_profile_info cfg w url t = (Inr info, t', acts)
        \<longrightarrow> get_current_address info = None)
   \<and> no_address (fst (process_owner cfg w out [] ow t))
   \<and> length (fst (process_owner cfg w out results ow t)) = Suc (length results)
   \<and> rows_without_address (snd (snd (main w out batch_size t)))"
proof -
  have 1: "\<forall>info t' acts. extract_profile_info cfg w url t = (Inr info, t', acts)
        \<longrightarrow> get_current_address info = None"
    using extract_profile_info_address by blast
  have e0: "no_address []" by (simp add: no_address_def)
  have 2: "no_address (fst (process_owner cfg w out [] ow t))"
    using process_owner_address [OF e0] by blast
  have 3: "length (fst (process_owner cfg w out results ow t)) = Suc (length results)"
    by (cases rule: process_owner_cases [of cfg w out results ow t]) simp_all
  from 1 2 3 main_address show ?thesis by blast
qed

theorem C10_current_address_always_empty_witness:
  "extract_profile_info scraper_config calm_world ''https://www.truepeoplesearch.com/find/ann'' 0
     = (Inr (Info None [''555-0100''] []), 6,
        [Sleep 5, Navigate ''https://www.truepeoplesearch.com/find/ann'', Sleep 2])
   \<and> get_current_address (Info None [''555-0100''] []) = None
   \<and> saves (snd (snd (main calm_world ''out.xlsx'' 5 0)))
     = [(''out.xlsx.partial'',
         [\<lparr>r_owner = ann, r_current_address = None, r_phone_numbers = ''555-0100'',
           r_emails = [], r_error = None\<rparr>]),
        (''out.xlsx'',
         [\<lparr>r_owner = ann, r_current_address = None, r_phone_numbers = ''555-0100'',
           r_emails = [], r_error = None\<rparr>,
          \<lparr>r_owner = bob, r_current_address = None, r_phone_numbers = ''555-0100'',
           r_emails = [], r_error = None\<rparr>])]
   \<and> rows_without_address (snd (snd (main calm_world ''out.xlsx'' 5 0)))"
proof -
  have a: "extract_profile_info scraper_config calm_world ''https://www.truepeoplesearch.com/find/ann'' 0
     = (Inr (Info None [''555-0100''] []), 6,
        [Sleep 5, Navigate ''https://www.truepeoplesearch.com/find/ann'', Sleep 2])"
    using calm_extract_profile_info [of "\<lambda>t. None" "''https://www.truepeoplesearch.com/find/ann''" 0]
    by (simp add: calm_world_write)
  from C10_current_address_always_empty
         [of scraper_config calm_world "''https://www.truepeoplesearch.com/find/ann''" 0
             "''out.xlsx''" ann "[]" 5] a calm_main
  show ?thesis by simp
qed

end
